theory Spec2Isabelle
  imports Main "HOL-Library.Sublist" "HOL-Library.Word"
begin

unbundle bit_operations_syntax

section \<open>The apartment tracker: data model\<close>

text \<open>
  The listing dictionary built at the end of the per-card loop body of
  \<^verbatim>\<open>scrape_listings\<close>. Python \<^verbatim>\<open>str\<close> values are modelled as \<^typ>\<open>string\<close>;
  \<^verbatim>\<open>image_url\<close> may be \<^verbatim>\<open>None\<close>, so it is an option. The key \<^verbatim>\<open>id\<close> is called
  \<open>listing_id\<close> here, since \<open>id\<close> is the identity function of HOL.
\<close>

record listing =
  listing_id :: string
  title :: string
  price :: string
  address :: string
  url :: string
  bedrooms :: string
  bathrooms :: string
  sqft :: string
  image_url :: "string option"

subsection \<open>The table \<^verbatim>\<open>apartments\<close>\<close>

text \<open>
  The table has \<^verbatim>\<open>id TEXT PRIMARY KEY\<close>, the other columns of a listing and
  \<^verbatim>\<open>first_seen TIMESTAMP DEFAULT CURRENT_TIMESTAMP\<close>. A table with a primary key is
  a map from the key to the row; a row is the inserted listing together with the
  time of the insertion. Failures of the database itself (an \<^verbatim>\<open>sqlite3\<close> error) are not
  part of the model.
\<close>

type_synonym row = "listing \<times> nat"

type_synonym database = "string \<rightharpoonup> row"

text \<open>\<^verbatim>\<open>SELECT id FROM apartments WHERE id = ?\<close>; \<^verbatim>\<open>return result is None\<close>.\<close>

definition is_new_listing :: "database \<Rightarrow> string \<Rightarrow> bool" where
  "is_new_listing db lid = (db lid = None)"

text \<open>
  \<^verbatim>\<open>INSERT OR IGNORE INTO apartments (...) VALUES (...)\<close>: the row is inserted with the
  current time \<open>now\<close> as \<^verbatim>\<open>first_seen\<close> unless a row with the same primary key exists,
  in which case the statement does nothing.
\<close>

definition save_listing :: "nat \<Rightarrow> listing \<Rightarrow> database \<Rightarrow> database" where
  "save_listing now l db =
     (case db (listing_id l) of
        None \<Rightarrow> db(listing_id l \<mapsto> (l, now))
      | Some r \<Rightarrow> db)"

section \<open>Python strings\<close>

text \<open>
  A Python \<^verbatim>\<open>str\<close> is represented by its UTF-8 encoding, a list of bytes: this is the
  text that \<^verbatim>\<open>.encode()\<close> hands to the hash, and a literal such as \<open>''N/A''\<close> is the text
  it shows. \<open>chars\<close> splits an encoding into its characters, each character being the list
  of its bytes (a byte \<^verbatim>\<open>10xxxxxx\<close> continues the character before it). Searching for
  a text (\<^verbatim>\<open>in\<close>, \<^verbatim>\<open>split(sep)\<close>,
  \<^verbatim>\<open>startswith\<close>) is the same on the bytes as on the characters. White space and decimal
  digits are those of Python 3.11 (Unicode 14.0).
\<close>

definition continuation :: "char \<Rightarrow> bool" where
  "continuation b = ((128::nat) \<le> of_char b \<and> of_char b < (192::nat))"

fun group_chars :: "string \<Rightarrow> string \<Rightarrow> string list" where
  "group_chars cur [] = (if cur = [] then [] else [cur])"
| "group_chars cur (b # bs) =
     (if continuation b then group_chars (cur @ [b]) bs
      else if cur = [] then group_chars [b] bs
      else cur # group_chars [b] bs)"

definition chars :: "string \<Rightarrow> string list" where
  "chars s = group_chars [] s"

text \<open>
  \<^verbatim>\<open>c.isspace()\<close>, which is also the white space of \<^verbatim>\<open>strip()\<close>, of \<^verbatim>\<open>split()\<close> and of
  \<^verbatim>\<open>\s\<close> in a pattern: the characters U+0009..U+000D, U+001C..U+0020, U+0085, U+00A0,
  U+1680, U+2000..U+200A, U+2028, U+2029, U+202F, U+205F and U+3000, here in UTF-8.
\<close>

definition whitespace_chars :: "string list" where
  "whitespace_chars =
     [
      [CHR 0x09], [CHR 0x0A], [CHR 0x0B],
      [CHR 0x0C], [CHR 0x0D], [CHR 0x1C],
      [CHR 0x1D], [CHR 0x1E], [CHR 0x1F],
      [CHR 0x20], [CHR 0xC2, CHR 0x85], [CHR 0xC2, CHR 0xA0],
      [CHR 0xE1, CHR 0x9A, CHR 0x80], [CHR 0xE2, CHR 0x80, CHR 0x80], [CHR 0xE2, CHR 0x80, CHR 0x81],
      [CHR 0xE2, CHR 0x80, CHR 0x82], [CHR 0xE2, CHR 0x80, CHR 0x83], [CHR 0xE2, CHR 0x80, CHR 0x84],
      [CHR 0xE2, CHR 0x80, CHR 0x85], [CHR 0xE2, CHR 0x80, CHR 0x86], [CHR 0xE2, CHR 0x80, CHR 0x87],
      [CHR 0xE2, CHR 0x80, CHR 0x88], [CHR 0xE2, CHR 0x80, CHR 0x89], [CHR 0xE2, CHR 0x80, CHR 0x8A],
      [CHR 0xE2, CHR 0x80, CHR 0xA8], [CHR 0xE2, CHR 0x80, CHR 0xA9], [CHR 0xE2, CHR 0x80, CHR 0xAF],
      [CHR 0xE2, CHR 0x81, CHR 0x9F], [CHR 0xE3, CHR 0x80, CHR 0x80]]"

definition py_isspace :: "string \<Rightarrow> bool" where
  "py_isspace ch = (ch \<in> set whitespace_chars)"

text \<open>\<^verbatim>\<open>s.strip()\<close>\<close>

definition py_strip :: "string \<Rightarrow> string" where
  "py_strip s = concat (rev (dropWhile py_isspace (rev (dropWhile py_isspace (chars s)))))"

text \<open>
  \<^verbatim>\<open>s.split()\<close>: the maximal runs of characters that are not white space, in order;
  \<open>cur\<close> is the run being read.
\<close>

fun split_runs :: "string \<Rightarrow> string list \<Rightarrow> string list" where
  "split_runs cur [] = (if cur = [] then [] else [cur])"
| "split_runs cur (ch # chs) =
     (if py_isspace ch then (if cur = [] then split_runs [] chs else cur # split_runs [] chs)
      else split_runs (cur @ ch) chs)"

definition py_split :: "string \<Rightarrow> string list" where
  "py_split s = split_runs [] (chars s)"

text \<open>\<^verbatim>\<open>sep.join(xs)\<close>\<close>

fun py_join :: "string \<Rightarrow> string list \<Rightarrow> string" where
  "py_join sep [] = []"
| "py_join sep [x] = x"
| "py_join sep (x # y # ys) = x @ sep @ py_join sep (y # ys)"

text \<open>
  \<^verbatim>\<open>s.lower()\<close>, as far as the code looks at it. The letters A to Z are lower-cased, and
  so are the two characters outside ASCII whose lower case has an ASCII letter: U+0130
  gives \<^verbatim>\<open>i\<close> followed by U+0307, and U+212A gives \<^verbatim>\<open>k\<close>. Every other character is left
  as it is: Python lowers a character outside ASCII to characters outside ASCII. The code
  only searches the lower-cased text, for the ASCII words \<^verbatim>\<open>street\<close>, \<^verbatim>\<open>avenue\<close>, \<^verbatim>\<open>road\<close>,
  \<^verbatim>\<open>place\<close>, \<^verbatim>\<open>drive\<close>, \<^verbatim>\<open>bed\<close>, \<^verbatim>\<open>bath\<close> and for the area marker, whose two characters
  outside ASCII are symbols, the lower case of themselves only; so each of these searches
  finds on this text what it finds on \<^verbatim>\<open>s.lower()\<close>.
\<close>

definition lower_char :: "char \<Rightarrow> char" where
  "lower_char c =
     (case map_of (zip ''ABCDEFGHIJKLMNOPQRSTUVWXYZ'' ''abcdefghijklmnopqrstuvwxyz'') c of
        None \<Rightarrow> c
      | Some l \<Rightarrow> l)"

definition lower_of :: "string \<Rightarrow> string" where
  "lower_of ch =
     (if ch = [CHR 0xC4, CHR 0xB0] then ''i'' @ [CHR 0xCC, CHR 0x87]
      else if ch = [CHR 0xE2, CHR 0x84, CHR 0xAA] then ''k''
      else map lower_char ch)"

definition py_lower :: "string \<Rightarrow> string" where
  "py_lower s = concat (map lower_of (chars s))"

text \<open>\<^verbatim>\<open>sub in s\<close>\<close>

fun py_in :: "string \<Rightarrow> string \<Rightarrow> bool" where
  "py_in sub [] = (sub = [])"
| "py_in sub (c # cs) = (prefix sub (c # cs) \<or> py_in sub cs)"

text \<open>\<^verbatim>\<open>s.startswith(p)\<close>\<close>

definition startswith :: "string \<Rightarrow> string \<Rightarrow> bool" where
  "startswith s p = prefix p s"

text \<open>
  \<^verbatim>\<open>s.split(sep)[0]\<close> for a non-empty \<open>sep\<close>: the text before the first occurrence of
  \<open>sep\<close>, the whole text when there is none.
\<close>

fun split_first :: "string \<Rightarrow> string \<Rightarrow> string" where
  "split_first sep [] = []"
| "split_first sep (c # cs) = (if prefix sep (c # cs) then [] else c # split_first sep cs)"

text \<open>
  What \<^verbatim>\<open>s.split(sep)[0]\<close> is to compute, said without the scan: \<open>r\<close> is \<open>s\<close> cut before
  the first occurrence of \<open>sep\<close>. When \<open>sep\<close> does not occur in \<open>s\<close>, \<open>r\<close> is \<open>s\<close>;
  otherwise \<open>s\<close> starts with \<open>r\<close> followed by \<open>sep\<close>, and \<open>sep\<close> does not occur in \<open>r\<close>
  followed by \<open>sep\<close> less its last byte, that is, nowhere before.
\<close>

definition cut_before :: "string \<Rightarrow> string \<Rightarrow> string \<Rightarrow> bool" where
  "cut_before sep s r =
     (if py_in sep s then prefix (r @ sep) s \<and> \<not> py_in sep (r @ butlast sep) else r = s)"

text \<open>
  The words of the specification for the price without a match, a text ``trimmed of
  trailing qualifier words'': the text is stripped, and as long as it ends with
  \<^verbatim>\<open>base\<close>, \<^verbatim>\<open>net\<close> or \<^verbatim>\<open>rent\<close>, that word is taken off and the rest is stripped.
\<close>

definition qualifier_words :: "string list" where
  "qualifier_words = [''base'', ''net'', ''rent'']"

fun trim_trailing_words :: "nat \<Rightarrow> string \<Rightarrow> string" where
  "trim_trailing_words 0 s = py_strip s"
| "trim_trailing_words (Suc n) s =
     (let t = py_strip s in
      case find (\<lambda>w. suffix w t) qualifier_words of
        None \<Rightarrow> t
      | Some w \<Rightarrow> trim_trailing_words n (take (length t - length w) t))"

definition spec_trim_qualifiers :: "string \<Rightarrow> string" where
  "spec_trim_qualifiers s = trim_trailing_words (length s) s"

text \<open>
  \<^verbatim>\<open>\d\<close> in a pattern on a \<^verbatim>\<open>str\<close>: the decimal digits of Unicode (category Nd). They
  come in runs of consecutive code points, and the characters of a run differ in their
  last byte only: a run is given by the bytes before the last, the last byte of its
  first digit, and its length. The first run is \<^verbatim>\<open>0\<close> to \<^verbatim>\<open>9\<close>.
\<close>

definition decimal_runs :: "(string \<times> nat \<times> nat) list" where
  "decimal_runs =
     [
      ([], 0x30, 10), ([CHR 0xD9], 0xA0, 10),
      ([CHR 0xDB], 0xB0, 10), ([CHR 0xDF], 0x80, 10),
      ([CHR 0xE0, CHR 0xA5], 0xA6, 10), ([CHR 0xE0, CHR 0xA7], 0xA6, 10),
      ([CHR 0xE0, CHR 0xA9], 0xA6, 10), ([CHR 0xE0, CHR 0xAB], 0xA6, 10),
      ([CHR 0xE0, CHR 0xAD], 0xA6, 10), ([CHR 0xE0, CHR 0xAF], 0xA6, 10),
      ([CHR 0xE0, CHR 0xB1], 0xA6, 10), ([CHR 0xE0, CHR 0xB3], 0xA6, 10),
      ([CHR 0xE0, CHR 0xB5], 0xA6, 10), ([CHR 0xE0, CHR 0xB7], 0xA6, 10),
      ([CHR 0xE0, CHR 0xB9], 0x90, 10), ([CHR 0xE0, CHR 0xBB], 0x90, 10),
      ([CHR 0xE0, CHR 0xBC], 0xA0, 10), ([CHR 0xE1, CHR 0x81], 0x80, 10),
      ([CHR 0xE1, CHR 0x82], 0x90, 10), ([CHR 0xE1, CHR 0x9F], 0xA0, 10),
      ([CHR 0xE1, CHR 0xA0], 0x90, 10), ([CHR 0xE1, CHR 0xA5], 0x86, 10),
      ([CHR 0xE1, CHR 0xA7], 0x90, 10), ([CHR 0xE1, CHR 0xAA], 0x80, 10),
      ([CHR 0xE1, CHR 0xAA], 0x90, 10), ([CHR 0xE1, CHR 0xAD], 0x90, 10),
      ([CHR 0xE1, CHR 0xAE], 0xB0, 10), ([CHR 0xE1, CHR 0xB1], 0x80, 10),
      ([CHR 0xE1, CHR 0xB1], 0x90, 10), ([CHR 0xEA, CHR 0x98], 0xA0, 10),
      ([CHR 0xEA, CHR 0xA3], 0x90, 10), ([CHR 0xEA, CHR 0xA4], 0x80, 10),
      ([CHR 0xEA, CHR 0xA7], 0x90, 10), ([CHR 0xEA, CHR 0xA7], 0xB0, 10),
      ([CHR 0xEA, CHR 0xA9], 0x90, 10), ([CHR 0xEA, CHR 0xAF], 0xB0, 10),
      ([CHR 0xEF, CHR 0xBC], 0x90, 10), ([CHR 0xF0, CHR 0x90, CHR 0x92], 0xA0, 10),
      ([CHR 0xF0, CHR 0x90, CHR 0xB4], 0xB0, 10), ([CHR 0xF0, CHR 0x91, CHR 0x81], 0xA6, 10),
      ([CHR 0xF0, CHR 0x91, CHR 0x83], 0xB0, 10), ([CHR 0xF0, CHR 0x91, CHR 0x84], 0xB6, 10),
      ([CHR 0xF0, CHR 0x91, CHR 0x87], 0x90, 10), ([CHR 0xF0, CHR 0x91, CHR 0x8B], 0xB0, 10),
      ([CHR 0xF0, CHR 0x91, CHR 0x91], 0x90, 10), ([CHR 0xF0, CHR 0x91, CHR 0x93], 0x90, 10),
      ([CHR 0xF0, CHR 0x91, CHR 0x99], 0x90, 10), ([CHR 0xF0, CHR 0x91, CHR 0x9B], 0x80, 10),
      ([CHR 0xF0, CHR 0x91, CHR 0x9C], 0xB0, 10), ([CHR 0xF0, CHR 0x91, CHR 0xA3], 0xA0, 10),
      ([CHR 0xF0, CHR 0x91, CHR 0xA5], 0x90, 10), ([CHR 0xF0, CHR 0x91, CHR 0xB1], 0x90, 10),
      ([CHR 0xF0, CHR 0x91, CHR 0xB5], 0x90, 10), ([CHR 0xF0, CHR 0x91, CHR 0xB6], 0xA0, 10),
      ([CHR 0xF0, CHR 0x96, CHR 0xA9], 0xA0, 10), ([CHR 0xF0, CHR 0x96, CHR 0xAB], 0x80, 10),
      ([CHR 0xF0, CHR 0x96, CHR 0xAD], 0x90, 10), ([CHR 0xF0, CHR 0x9D, CHR 0x9F], 0x8E, 50),
      ([CHR 0xF0, CHR 0x9E, CHR 0x85], 0x80, 10), ([CHR 0xF0, CHR 0x9E, CHR 0x8B], 0xB0, 10),
      ([CHR 0xF0, CHR 0x9E, CHR 0xA5], 0x90, 10), ([CHR 0xF0, CHR 0x9F, CHR 0xAF], 0xB0, 10)]"

definition is_decimal :: "string \<Rightarrow> bool" where
  "is_decimal ch =
     (ch \<noteq> [] \<and>
      list_ex (\<lambda>(lead, first, n).
                 butlast ch = lead \<and> first \<le> of_char (last ch) \<and> of_char (last ch) < first + n)
        decimal_runs)"

definition digit_or_comma :: "string \<Rightarrow> bool" where
  "digit_or_comma ch = (is_decimal ch \<or> ch = '','')"

text \<open>
  \<^verbatim>\<open>re.search(r'\$[\d,]+', s)\<close> and, on a match, \<^verbatim>\<open>group(0)\<close>: the leftmost dollar sign
  that is followed by a digit or a comma, with the longest run of digits and commas after
  it.
\<close>

fun search_price :: "string list \<Rightarrow> string option" where
  "search_price [] = None"
| "search_price (ch # chs) =
     (if ch = ''$'' \<and> takeWhile digit_or_comma chs \<noteq> []
      then Some (concat (ch # takeWhile digit_or_comma chs))
      else search_price chs)"

definition re_search_price :: "string \<Rightarrow> string option" where
  "re_search_price s = search_price (chars s)"

section \<open>The parsed page\<close>

text \<open>
  \<^verbatim>\<open>BeautifulSoup(response.content, 'html.parser')\<close> turns the page into a tree of tags and
  strings. The model starts from that tree: a tag has a name, its attributes and its
  children; a string is a leaf. An element handed around by the code (a card, a link) is a
  tag of the tree together with its ancestors, nearest first, which is what a selector
  with a descendant combinator looks at.
\<close>

datatype node = Tag string "(string \<times> string) list" "node list" | NavigableString string

type_synonym element = "node list \<times> node"

fun attrs :: "node \<Rightarrow> (string \<times> string) list" where
  "attrs (Tag n as cs) = as"
| "attrs (NavigableString s) = []"

fun name :: "node \<Rightarrow> string option" where
  "name (Tag n as cs) = Some n"
| "name (NavigableString s) = None"

text \<open>\<^verbatim>\<open>elem.get(key)\<close> (\<^verbatim>\<open>None\<close> without the attribute) and \<^verbatim>\<open>elem.get(key, default)\<close>.\<close>

definition get :: "element \<Rightarrow> string \<Rightarrow> string option" where
  "get e k = map_of (attrs (snd e)) k"

definition get_default :: "element \<Rightarrow> string \<Rightarrow> string \<Rightarrow> string" where
  "get_default e k d = (case get e k of None \<Rightarrow> d | Some v \<Rightarrow> v)"

text \<open>The tags of a subtree in document order, each with its ancestors.\<close>

fun subtree :: "node list \<Rightarrow> node \<Rightarrow> element list" where
  "subtree anc (NavigableString s) = []"
| "subtree anc (Tag n as cs) =
     (anc, Tag n as cs) # concat (map (subtree (Tag n as cs # anc)) cs)"

definition descendants :: "element \<Rightarrow> element list" where
  "descendants e = tl (subtree (fst e) (snd e))"

text \<open>
  \<^verbatim>\<open>elem.get_text(strip=True)\<close>: every string below the element, stripped, the empty ones
  left out, joined without a separator.
\<close>

fun all_strings :: "node \<Rightarrow> string list" where
  "all_strings (NavigableString s) = [s]"
| "all_strings (Tag n as cs) = concat (map all_strings cs)"

definition get_text_strip :: "element \<Rightarrow> string" where
  "get_text_strip e = concat (filter (\<lambda>s. s \<noteq> []) (map py_strip (all_strings (snd e))))"

subsection \<open>CSS selectors\<close>

text \<open>
  The selectors of the tracker are built from four simple selectors: a type selector
  \<^verbatim>\<open>a\<close>, a class selector \<^verbatim>\<open>.c\<close>, \<^verbatim>\<open>[k="v"]\<close> and \<^verbatim>\<open>[k*="v"]\<close>. A compound selector is a
  list of simple selectors that all hold of one tag; a selector is a list of compounds
  joined by the descendant combinator, the last one for the tag itself. The selector
  engine matches \<^verbatim>\<open>[k="v"]\<close> with the pattern \<^verbatim>\<open>^v$\<close>, which holds of the value \<open>v\<close> and of
  \<open>v\<close> followed by one line feed, and \<^verbatim>\<open>[k*="v"]\<close> with \<^verbatim>\<open>.*?v.*\<close>, any value in which
  \<open>v\<close> occurs.
\<close>

datatype simple_selector =
  TypeSel string | ClassSel string | AttrEq string string | AttrSub string string

type_synonym selector = "simple_selector list list"

text \<open>
  The parser keeps \<^verbatim>\<open>class\<close> as the list of its whitespace-separated tokens; a class
  selector looks a token up, an attribute selector on \<^verbatim>\<open>class\<close> sees the tokens joined
  by one space.
\<close>

definition css_value :: "node \<Rightarrow> string \<Rightarrow> string option" where
  "css_value n k =
     (case map_of (attrs n) k of
        None \<Rightarrow> None
      | Some v \<Rightarrow> Some (if k = ''class'' then py_join '' '' (py_split v) else v))"

fun matches_simple :: "simple_selector \<Rightarrow> node \<Rightarrow> bool" where
  "matches_simple (TypeSel t) n = (name n = Some t)"
| "matches_simple (ClassSel c) n =
     (case map_of (attrs n) ''class'' of None \<Rightarrow> False | Some v \<Rightarrow> c \<in> set (py_split v))"
| "matches_simple (AttrEq k v) n =
     (css_value n k = Some v \<or> css_value n k = Some (v @ [CHR 0x0A]))"
| "matches_simple (AttrSub k v) n =
     (case css_value n k of None \<Rightarrow> False | Some w \<Rightarrow> v \<noteq> [] \<and> py_in v w)"

definition matches_compound :: "simple_selector list \<Rightarrow> node \<Rightarrow> bool" where
  "matches_compound c n = list_all (\<lambda>s. matches_simple s n) c"

text \<open>
  The compounds left of the tag's own, innermost first, against the ancestors, nearest
  first: each needs some ancestor further out than the one before.
\<close>

fun matches_chain :: "simple_selector list list \<Rightarrow> node list \<Rightarrow> bool" where
  "matches_chain [] anc = True"
| "matches_chain (c # cs) [] = False"
| "matches_chain (c # cs) (a # anc) =
     ((matches_compound c a \<and> matches_chain cs anc) \<or> matches_chain (c # cs) anc)"

definition matches :: "selector \<Rightarrow> element \<Rightarrow> bool" where
  "matches sel e =
     (case rev sel of
        [] \<Rightarrow> False
      | c # cs \<Rightarrow> matches_compound c (snd e) \<and> matches_chain cs (fst e))"

text \<open>\<^verbatim>\<open>elem.select(sel)\<close> and \<^verbatim>\<open>elem.select_one(sel)\<close>, over the descendants of the element.\<close>

definition select :: "element \<Rightarrow> selector \<Rightarrow> element list" where
  "select e sel = filter (matches sel) (descendants e)"

definition select_one :: "element \<Rightarrow> selector \<Rightarrow> element option" where
  "select_one e sel = (case select e sel of [] \<Rightarrow> None | x # xs \<Rightarrow> Some x)"

text \<open>
  \<^verbatim>\<open>a or b\<close> on two results of \<^verbatim>\<open>select_one\<close>: a tag is always true, \<^verbatim>\<open>None\<close> is false.
\<close>

definition or_else :: "'a option \<Rightarrow> 'a option \<Rightarrow> 'a option" where
  "or_else a b = (case a of None \<Rightarrow> b | Some x \<Rightarrow> Some x)"

text \<open>
  \<^verbatim>\<open>for selector in selectors: elem = card.select_one(selector); if elem: ...; break\<close>:
  the first selector of the list that finds an element, with that element.
\<close>

fun first_selected :: "element \<Rightarrow> selector list \<Rightarrow> element option" where
  "first_selected crd [] = None"
| "first_selected crd (sel # sels) =
     (case select_one crd sel of None \<Rightarrow> first_selected crd sels | Some e \<Rightarrow> Some e)"

section \<open>The identity hash\<close>

text \<open>
  \<^verbatim>\<open>hashlib.md5(data).hexdigest()\<close> is MD5 as RFC 1321 defines it, on bytes, with the
  digest written as 32 lowercase hexadecimal digits.
\<close>

definition md5_shifts :: "nat list" where
  "md5_shifts =
     [
      7, 12, 17, 22, 7, 12, 17, 22, 7, 12, 17, 22, 7, 12, 17, 22,
      5, 9, 14, 20, 5, 9, 14, 20, 5, 9, 14, 20, 5, 9, 14, 20,
      4, 11, 16, 23, 4, 11, 16, 23, 4, 11, 16, 23, 4, 11, 16, 23,
      6, 10, 15, 21, 6, 10, 15, 21, 6, 10, 15, 21, 6, 10, 15, 21]"

definition md5_sines :: "32 word list" where
  "md5_sines =
     [
      0xd76aa478, 0xe8c7b756, 0x242070db, 0xc1bdceee,
      0xf57c0faf, 0x4787c62a, 0xa8304613, 0xfd469501,
      0x698098d8, 0x8b44f7af, 0xffff5bb1, 0x895cd7be,
      0x6b901122, 0xfd987193, 0xa679438e, 0x49b40821,
      0xf61e2562, 0xc040b340, 0x265e5a51, 0xe9b6c7aa,
      0xd62f105d, 0x02441453, 0xd8a1e681, 0xe7d3fbc8,
      0x21e1cde6, 0xc33707d6, 0xf4d50d87, 0x455a14ed,
      0xa9e3e905, 0xfcefa3f8, 0x676f02d9, 0x8d2a4c8a,
      0xfffa3942, 0x8771f681, 0x6d9d6122, 0xfde5380c,
      0xa4beea44, 0x4bdecfa9, 0xf6bb4b60, 0xbebfbc70,
      0x289b7ec6, 0xeaa127fa, 0xd4ef3085, 0x04881d05,
      0xd9d4d039, 0xe6db99e5, 0x1fa27cf8, 0xc4ac5665,
      0xf4292244, 0x432aff97, 0xab9423a7, 0xfc93a039,
      0x655b59c3, 0x8f0ccc92, 0xffeff47d, 0x85845dd1,
      0x6fa87e4f, 0xfe2ce6e0, 0xa3014314, 0x4e0811a1,
      0xf7537e82, 0xbd3af235, 0x2ad7d2bb, 0xeb86d391]"

definition le_bytes :: "nat \<Rightarrow> 'a::len word \<Rightarrow> 8 word list" where
  "le_bytes k w = map (\<lambda>i. ucast (drop_bit (8 * i) w)) [0..<k]"

definition md5_pad :: "8 word list \<Rightarrow> 8 word list" where
  "md5_pad msg =
     msg @ [0x80] @ replicate ((119 - length msg mod 64) mod 64) 0
       @ le_bytes 8 (8 * of_nat (length msg) :: 64 word)"

fun le_word :: "8 word list \<Rightarrow> 32 word" where
  "le_word [] = 0"
| "le_word (b # bs) = ucast b + push_bit 8 (le_word bs)"

fun chunks :: "nat \<Rightarrow> nat \<Rightarrow> 'a list \<Rightarrow> 'a list list" where
  "chunks 0 k xs = []"
| "chunks (Suc n) k xs = take k xs # chunks n k (drop k xs)"

type_synonym md5_state = "32 word \<times> 32 word \<times> 32 word \<times> 32 word"

definition md5_step :: "32 word list \<Rightarrow> md5_state \<Rightarrow> nat \<Rightarrow> md5_state" where
  "md5_step m st i =
     (case st of (a, b, c, d) \<Rightarrow>
        let (f, g) =
              (if i < 16 then ((b AND c) OR (NOT b AND d), i)
               else if i < 32 then ((d AND b) OR (NOT d AND c), (5 * i + 1) mod 16)
               else if i < 48 then (b XOR c XOR d, (3 * i + 5) mod 16)
               else (c XOR (b OR NOT d), (7 * i) mod 16));
            f' = f + a + md5_sines ! i + m ! g
        in (d, b + word_rotl (md5_shifts ! i) f', b, c))"

definition md5_chunk :: "md5_state \<Rightarrow> 8 word list \<Rightarrow> md5_state" where
  "md5_chunk st chunk =
     (case st of (a0, b0, c0, d0) \<Rightarrow>
        case foldl (md5_step (map le_word (chunks 16 4 chunk))) st [0..<64] of
          (a, b, c, d) \<Rightarrow> (a0 + a, b0 + b, c0 + c, d0 + d))"

definition md5_digest :: "8 word list \<Rightarrow> 8 word list" where
  "md5_digest msg =
     (let p = md5_pad msg in
      case foldl md5_chunk (0x67452301, 0xefcdab89, 0x98badcfe, 0x10325476)
             (chunks (length p div 64) 64 p) of
        (a, b, c, d) \<Rightarrow> concat (map (le_bytes 4) [a, b, c, d]))"

definition hex_digit :: "nat \<Rightarrow> char" where
  "hex_digit n = ''0123456789abcdef'' ! n"

definition hexdigest :: "8 word list \<Rightarrow> string" where
  "hexdigest bs = concat (map (\<lambda>b. [hex_digit (unat b div 16), hex_digit (unat b mod 16)]) bs)"

definition encode :: "string \<Rightarrow> 8 word list" where
  "encode s = map of_char s"

definition md5_hex :: "string \<Rightarrow> string" where
  "md5_hex s = hexdigest (md5_digest (encode s))"

text \<open>
  \<^verbatim>\<open>unique_string = f"{title}_{address}_{price}"\<close>;
  \<^verbatim>\<open>return hashlib.md5(unique_string.encode()).hexdigest()\<close>
\<close>

definition generate_listing_id :: "string \<Rightarrow> string \<Rightarrow> string \<Rightarrow> string" where
  "generate_listing_id ttl addr prc = md5_hex (ttl @ ''_'' @ addr @ ''_'' @ prc)"

section \<open>The extractor: one card\<close>

definition base_origin :: string where
  "base_origin = ''https://streeteasy.com''"

definition NA :: string where
  "NA = ''N/A''"

subsection \<open>The link and the url\<close>

definition link_primary_sel :: selector where
  "link_primary_sel = [[TypeSel ''a'', ClassSel ''ImageContainer-module__listingLink___sYIL9'']]"

definition link_rental_sel :: selector where
  "link_rental_sel = [[TypeSel ''a'', AttrSub ''href'' ''/rental/'']]"

definition link_building_sel :: selector where
  "link_building_sel = [[TypeSel ''a'', AttrSub ''href'' ''/building/'']]"

definition extract_link :: "element \<Rightarrow> element option" where
  "extract_link crd =
     (case select_one crd link_primary_sel of
        Some e \<Rightarrow> Some e
      | None \<Rightarrow> or_else (select_one crd link_rental_sel) (select_one crd link_building_sel))"

text \<open>
  \<^verbatim>\<open>full_url = link_elem.get('href', '')\<close>, put after the origin unless it starts with
  \<^verbatim>\<open>http\<close>.
\<close>

definition full_url_of :: "element \<Rightarrow> string" where
  "full_url_of link =
     (let u = get_default link ''href'' [] in
      if \<not> startswith u ''http'' then base_origin @ u else u)"

subsection \<open>The image, the title and the image url\<close>

definition img_primary_sel :: selector where
  "img_primary_sel = [[TypeSel ''img'', ClassSel ''CardImage-module__cardImage__cirIn'']]"

definition img_sel :: selector where
  "img_sel = [[TypeSel ''img'']]"

definition img_testid_sel :: selector where
  "img_testid_sel = [[AttrEq ''data-testid'' ''listing-image''], [TypeSel ''img'']]"

definition extract_img :: "element \<Rightarrow> element option" where
  "extract_img crd =
     (case select_one crd img_primary_sel of
        Some e \<Rightarrow> Some e
      | None \<Rightarrow> or_else (select_one crd img_sel) (select_one crd img_testid_sel))"

text \<open>The title after the block \<^verbatim>\<open>if img_elem:\<close>, as the \<^verbatim>\<open>alt\<close> text gives it.\<close>

definition title_from_img :: "element \<Rightarrow> string" where
  "title_from_img img =
     (let alt_text = get_default img ''alt'' [] in
      if alt_text \<noteq> [] then
        (if py_in ''image'' alt_text then py_strip (split_first ''image'' alt_text)
         else py_strip alt_text)
      else NA)"

text \<open>
  \<^verbatim>\<open>image_url = img_elem.get('src') or img_elem.get('data-src')\<close>, put after the origin
  when it is non-empty and does not start with \<^verbatim>\<open>http\<close>.
\<close>

definition image_url_of :: "element \<Rightarrow> string option" where
  "image_url_of img =
     (let u = (case get img ''src'' of
                 None \<Rightarrow> get img ''data-src''
               | Some v \<Rightarrow> if v \<noteq> [] then Some v else get img ''data-src'')
      in case u of
           None \<Rightarrow> None
         | Some v \<Rightarrow> if v \<noteq> [] \<and> \<not> startswith v ''http'' then Some (base_origin @ v)
                     else Some v)"

definition title_selectors :: "selector list" where
  "title_selectors =
     [[[AttrEq ''data-testid'' ''listing-title'']],
      [[ClassSel ''ListingCard-module__address__'']],
      [[ClassSel ''address'']],
      [[TypeSel ''h3'']],
      [[TypeSel ''h2'']],
      [[AttrSub ''class'' ''address'']],
      [[AttrSub ''class'' ''title'']]]"

definition extract_title :: "element \<Rightarrow> string" where
  "extract_title crd =
     (let t = (case extract_img crd of None \<Rightarrow> NA | Some img \<Rightarrow> title_from_img img) in
      if t = NA then
        (case first_selected crd title_selectors of
           None \<Rightarrow> t
         | Some title_elem \<Rightarrow> get_text_strip title_elem)
      else t)"

definition extract_image_url :: "element \<Rightarrow> string option" where
  "extract_image_url crd =
     (case extract_img crd of None \<Rightarrow> None | Some img \<Rightarrow> image_url_of img)"

subsection \<open>The price\<close>

definition price_selectors :: "selector list" where
  "price_selectors =
     [[[ClassSel ''PriceInfo-module__priceText___Ej9Ej'']],
      [[ClassSel ''price'']],
      [[AttrEq ''data-testid'' ''price'']],
      [[ClassSel ''ListingDetails-module__price___'']],
      [[AttrSub ''class'' ''price'']],
      [[AttrSub ''class'' ''Price'']],
      [[ClassSel ''rent-price'']],
      [[ClassSel ''listing-price'']]]"

text \<open>The price that the loop body computes from \<^verbatim>\<open>raw_price\<close>.\<close>

definition clean_price :: "string \<Rightarrow> string" where
  "clean_price raw_price =
     (case re_search_price raw_price of
        Some m \<Rightarrow> m
      | None \<Rightarrow>
          (let p = py_strip (split_first ''rent'' (split_first ''net''
                     (split_first ''base'' raw_price)))
           in if \<not> startswith p ''$'' then NA else p))"

definition extract_price :: "element \<Rightarrow> string" where
  "extract_price crd =
     (case first_selected crd price_selectors of
        None \<Rightarrow> NA
      | Some price_elem \<Rightarrow> clean_price (get_text_strip price_elem))"

subsection \<open>The address\<close>

definition street_words :: "string list" where
  "street_words = [''street'', ''avenue'', ''road'', ''place'', ''drive'']"

definition extract_address :: "string \<Rightarrow> string" where
  "extract_address ttl =
     (if ttl \<noteq> NA \<and> list_ex (\<lambda>word. py_in word (py_lower ttl)) street_words then
        (let address_parts = py_split ttl in
         if 3 \<le> length address_parts then py_join '' '' (butlast address_parts) else NA)
      else NA)"

subsection \<open>Bedrooms, bathrooms, area\<close>

definition beds_baths_sel :: selector where
  "beds_baths_sel = [[ClassSel ''BedsBathsSqft-module__bedsBathsSqft___QFOK-'']]"

definition beds_text_sel :: selector where
  "beds_text_sel = [[ClassSel ''BedsBathsSqft-module__text___lnveO'']]"

text \<open>The area marker of the source, \<^verbatim>\<open>ft\<close> and the five bytes that follow it there.\<close>

definition sqft_marker :: string where
  "sqft_marker = ''ft'' @ [CHR 0xC2, CHR 0xAC, CHR 0xE2, CHR 0x89, CHR 0xA4]"

definition classify_item :: "string \<times> string \<times> string \<Rightarrow> element \<Rightarrow> string \<times> string \<times> string" where
  "classify_item acc item =
     (case acc of (beds, baths, area) \<Rightarrow>
        let text = py_lower (get_text_strip item) in
        if py_in ''bed'' text then (get_text_strip item, baths, area)
        else if py_in ''bath'' text then (beds, get_text_strip item, area)
        else if py_in sqft_marker text then (beds, baths, get_text_strip item)
        else (beds, baths, area))"

definition extract_beds_baths_sqft :: "element \<Rightarrow> string \<times> string \<times> string" where
  "extract_beds_baths_sqft crd =
     (case select_one crd beds_baths_sel of
        None \<Rightarrow> (NA, NA, NA)
      | Some container \<Rightarrow> foldl classify_item (NA, NA, NA) (select container beds_text_sel))"

subsection \<open>The loop body\<close>

text \<open>
  One pass of \<^verbatim>\<open>for card in apartment_cards\<close>: \<open>None\<close> is \<^verbatim>\<open>continue\<close>, \<open>Some\<close> is the
  listing appended. No statement of the body raises on a parsed card, so the handler
  \<^verbatim>\<open>except Exception\<close> of the body has no branch here.
\<close>

definition scrape_card :: "element \<Rightarrow> listing option" where
  "scrape_card crd =
     (case extract_link crd of
        None \<Rightarrow> None
      | Some link_elem \<Rightarrow>
          (let full_url = full_url_of link_elem;
               ttl = extract_title crd;
               prc = extract_price crd;
               addr = extract_address ttl;
               bbs = extract_beds_baths_sqft crd
           in if ttl = NA \<or> full_url = [] then None
              else Some \<lparr>listing_id = generate_listing_id ttl addr prc,
                         title = ttl, price = prc, address = addr, url = full_url,
                         bedrooms = fst bbs, bathrooms = fst (snd bbs), sqft = snd (snd bbs),
                         image_url = extract_image_url crd\<rparr>))"

section \<open>The fetcher\<close>

text \<open>
  A response carries its status code and its content, the content as the parsed tree.
  \<^verbatim>\<open>session.get\<close> either returns a response or raises a
  \<^verbatim>\<open>requests.exceptions.RequestException\<close>.
\<close>

record response =
  status_code :: int
  content :: node

datatype outcome = Responded response | RequestFailed

text \<open>
  The error raised after the loop,
  \<^verbatim>\<open>RequestException(f"Failed to fetch page after {max_retries} attempts")\<close>, with the
  number its message carries.
\<close>

datatype fetch_error = RequestException int

text \<open>
  The session: its \<^verbatim>\<open>User-Agent\<close> header, and the requests it has sent so far, each
  recorded by the \<^verbatim>\<open>User-Agent\<close> it went out with.
\<close>

record session =
  user_agent :: string
  requests_sent :: "string list"

text \<open>
  The network answers the \<open>n\<close>-th request of the session, sent with a given
  \<^verbatim>\<open>User-Agent\<close>; the random source gives the draw made after the \<open>n\<close>-th request.
  The delays between attempts (\<^verbatim>\<open>random.uniform\<close>, \<^verbatim>\<open>time.sleep\<close>) are not part of the
  model.
\<close>

type_synonym network = "nat \<Rightarrow> string \<Rightarrow> outcome"

type_synonym random_source = "nat \<Rightarrow> nat"

definition initial_user_agent :: string where
  "initial_user_agent = ''Mozilla/5.0 (Macintosh; Intel Mac OS X 10_15_7) AppleWebKit/537.36 (KHTML, like Gecko) Chrome/120.0.0.0 Safari/537.36''"

definition user_agents :: "string list" where
  "user_agents =
     [''Mozilla/5.0 (Windows NT 10.0; Win64; x64) AppleWebKit/537.36 (KHTML, like Gecko) Chrome/120.0.0.0 Safari/537.36'',
      ''Mozilla/5.0 (Macintosh; Intel Mac OS X 10_15_7) AppleWebKit/605.1.15 (KHTML, like Gecko) Version/17.1 Safari/605.1.15'',
      ''Mozilla/5.0 (X11; Linux x86_64) AppleWebKit/537.36 (KHTML, like Gecko) Chrome/120.0.0.0 Safari/537.36'']"

text \<open>\<^verbatim>\<open>random.choice(xs)\<close> for a non-empty list, the draw being \<open>r\<close>.\<close>

definition random_choice :: "nat \<Rightarrow> 'a list \<Rightarrow> 'a" where
  "random_choice r xs = xs ! (r mod length xs)"

text \<open>
  \<^verbatim>\<open>for attempt in range(max_retries)\<close>, from the pass \<open>attempt\<close> on; the result is the
  response returned or the error raised, with the session as the loop leaves it.
\<close>

function get_page_with_retry_from ::
  "network \<Rightarrow> random_source \<Rightarrow> int \<Rightarrow> nat \<Rightarrow> session \<Rightarrow> (fetch_error + response) \<times> session"
where
  "get_page_with_retry_from net rnd max_retries attempt sess =
     (if int attempt < max_retries then
        (let n = length (requests_sent sess);
             sent = sess\<lparr>requests_sent := requests_sent sess @ [user_agent sess]\<rparr>
         in case net n (user_agent sess) of
              Responded resp \<Rightarrow>
                if status_code resp = 200 then (Inr resp, sent)
                else if status_code resp = 403 then
                  (if int attempt < max_retries - 1 then
                     get_page_with_retry_from net rnd max_retries (Suc attempt)
                       (sent\<lparr>user_agent := random_choice (rnd n) user_agents\<rparr>)
                   else get_page_with_retry_from net rnd max_retries (Suc attempt) sent)
                else get_page_with_retry_from net rnd max_retries (Suc attempt) sent
            | RequestFailed \<Rightarrow>
                get_page_with_retry_from net rnd max_retries (Suc attempt) sent)
      else (Inl (RequestException max_retries), sess))"
  by pat_completeness auto
termination
  by (relation "measure (\<lambda>(net, rnd, max_retries, attempt, sess). nat (max_retries - int attempt))")
    auto

declare get_page_with_retry_from.simps [simp del]

definition get_page_with_retry ::
  "network \<Rightarrow> random_source \<Rightarrow> int \<Rightarrow> session \<Rightarrow> (fetch_error + response) \<times> session"
where
  "get_page_with_retry net rnd max_retries sess =
     get_page_with_retry_from net rnd max_retries 0 sess"

subsection \<open>What a call of the fetcher did\<close>

text \<open>
  The requests sent between two states of the session; an outcome that does not end the
  loop; an outcome with status 403.
\<close>

definition attempts :: "session \<Rightarrow> session \<Rightarrow> string list" where
  "attempts sess sess' = drop (length (requests_sent sess)) (requests_sent sess')"

definition failed :: "outcome \<Rightarrow> bool" where
  "failed out = (case out of Responded resp \<Rightarrow> status_code resp \<noteq> 200 | RequestFailed \<Rightarrow> True)"

definition forbidden :: "outcome \<Rightarrow> bool" where
  "forbidden out = (case out of Responded resp \<Rightarrow> status_code resp = 403 | RequestFailed \<Rightarrow> False)"

text \<open>
  A sequence of requests as the loop sends it, the first being the \<open>k\<close>-th request of
  the session: every request but the last fails, and the one after a failure goes out
  with a drawn identity after a 403 and with the same identity otherwise.
\<close>

fun retry_chain :: "network \<Rightarrow> random_source \<Rightarrow> nat \<Rightarrow> string list \<Rightarrow> bool" where
  "retry_chain net rnd k (u # v # us) =
     (failed (net k u)
      \<and> v = (if forbidden (net k u) then random_choice (rnd k) user_agents else u)
      \<and> retry_chain net rnd (Suc k) (v # us))"
| "retry_chain net rnd k us = True"

text \<open>Every request of the sequence fails.\<close>

fun all_failed :: "network \<Rightarrow> nat \<Rightarrow> string list \<Rightarrow> bool" where
  "all_failed net k [] = True"
| "all_failed net k (u # us) = (failed (net k u) \<and> all_failed net (Suc k) us)"

text \<open>
  What a run of the loop with \<open>budget\<close> passes left establishes, \<open>tr\<close> being the
  requests it sent.
\<close>

definition fetch_post ::
  "network \<Rightarrow> random_source \<Rightarrow> int \<Rightarrow> session \<Rightarrow> (fetch_error + response) \<Rightarrow> string list \<Rightarrow> bool"
where
  "fetch_post net rnd budget sess res tr =
     (int (length tr) \<le> max 0 budget
      \<and> (tr \<noteq> [] \<longrightarrow> hd tr = user_agent sess)
      \<and> retry_chain net rnd (length (requests_sent sess)) tr
      \<and> (case res of
            Inr resp \<Rightarrow> tr \<noteq> [] \<and> status_code resp = 200
              \<and> net (length (requests_sent sess) + length tr - 1) (last tr) = Responded resp
          | Inl e \<Rightarrow> int (length tr) = max 0 budget
              \<and> all_failed net (length (requests_sent sess)) tr))"

section \<open>The extractor: one page\<close>

definition listing_card_sel :: selector where
  "listing_card_sel = [[AttrEq ''data-testid'' ''listing-card'']]"

text \<open>
  \<^verbatim>\<open>scrape_listings\<close>: the page is fetched with the default \<^verbatim>\<open>max_retries = 3\<close>; the
  error of the fetcher is caught by \<^verbatim>\<open>except Exception\<close> and gives \<^verbatim>\<open>[]\<close>; a page
  without cards gives \<^verbatim>\<open>[]\<close>; otherwise the cards are read in order.
\<close>

definition scrape_listings ::
  "network \<Rightarrow> random_source \<Rightarrow> session \<Rightarrow> listing list \<times> session"
where
  "scrape_listings net rnd sess =
     (case get_page_with_retry net rnd 3 sess of
        (Inl e, sess') \<Rightarrow> ([], sess')
      | (Inr resp, sess') \<Rightarrow>
          (let apartment_cards = select ([], content resp) listing_card_sel in
           if apartment_cards = [] then ([], sess')
           else (List.map_filter scrape_card apartment_cards, sess')))"

section \<open>The cycle\<close>

text \<open>The tracker: its session and its table \<^verbatim>\<open>apartments\<close>.\<close>

record tracker =
  session :: session
  apartments :: database

text \<open>
  \<^verbatim>\<open>for listing in listings: if self.is_new_listing(listing['id']): new_listings.append(listing); self.save_listing(listing)\<close>.
  The clock gives the time at which the pass \<open>i\<close> of the loop runs.
\<close>

fun new_listings_loop ::
  "(nat \<Rightarrow> nat) \<Rightarrow> nat \<Rightarrow> listing list \<Rightarrow> listing list \<Rightarrow> database \<Rightarrow> listing list \<times> database"
where
  "new_listings_loop clock i [] new_listings d = (new_listings, d)"
| "new_listings_loop clock i (l # ls) new_listings d =
     (if is_new_listing d (listing_id l)
      then new_listings_loop clock (Suc i) ls (new_listings @ [l]) (save_listing (clock i) l d)
      else new_listings_loop clock (Suc i) ls new_listings d)"

text \<open>
  \<^verbatim>\<open>check_for_new_listings\<close>. The first component of the result is \<^verbatim>\<open>new_listings\<close> as
  handed to \<^verbatim>\<open>send_email_notifications\<close>, which is called only with a non-empty list:
  it is \<open>[]\<close> when the notifier is not called.
\<close>

definition check_for_new_listings ::
  "network \<Rightarrow> random_source \<Rightarrow> (nat \<Rightarrow> nat) \<Rightarrow> tracker \<Rightarrow> listing list \<times> tracker"
where
  "check_for_new_listings net rnd clock tr =
     (case scrape_listings net rnd (session tr) of
        (listings, sess') \<Rightarrow>
          if listings = [] then ([], tr\<lparr>session := sess'\<rparr>)
          else (case new_listings_loop clock 0 listings [] (apartments tr) of
                  (new_listings, d) \<Rightarrow> (new_listings, \<lparr>session = sess', apartments = d\<rparr>)))"

subsection \<open>Sample values\<close>

text \<open>
  A card with a link, an image whose \<^verbatim>\<open>alt\<close> text is the title, and a price element; a
  page with that card twice; the listing read from the card.
\<close>

definition sample_card :: node where
  "sample_card =
     Tag ''div'' [(''data-testid'', ''listing-card'')]
       [Tag ''a'' [(''href'', ''/rental/abc123'')]
          [Tag ''img'' [(''alt'', ''120 East 5th Street 3A'')] []],
        Tag ''span'' [(''class'', ''price'')] [NavigableString ''Base: $2,500'']]"

definition sample_page :: node where
  "sample_page = Tag ''[document]'' [] [sample_card, sample_card]"

definition sample_listing :: listing where
  "sample_listing =
     \<lparr>listing_id = generate_listing_id ''120 East 5th Street 3A'' ''120 East 5th Street''
        ''$2,500'',
      title = ''120 East 5th Street 3A'', price = ''$2,500'', address = ''120 East 5th Street'',
      url = ''https://streeteasy.com/rental/abc123'', bedrooms = ''N/A'',
      bathrooms = ''N/A'', sqft = ''N/A'', image_url = None\<rparr>"

text \<open>
  A card with a link and a two-word title and nothing else, and a card with a title but
  no link.
\<close>

definition bare_card :: node where
  "bare_card =
     Tag ''div'' [(''data-testid'', ''listing-card'')]
       [Tag ''a'' [(''href'', ''/rental/x1'')] [Tag ''img'' [(''alt'', ''Park place'')] []]]"

definition linkless_card :: node where
  "linkless_card =
     Tag ''div'' [(''data-testid'', ''listing-card'')]
       [Tag ''img'' [(''alt'', ''9 Ocean Road B'')] []]"

definition bare_page :: node where
  "bare_page = Tag ''[document]'' [] [bare_card]"

definition bare_listing :: listing where
  "bare_listing =
     \<lparr>listing_id = generate_listing_id ''Park place'' ''N/A'' ''N/A'',
      title = ''Park place'', price = ''N/A'', address = ''N/A'',
      url = ''https://streeteasy.com/rental/x1'', bedrooms = ''N/A'',
      bathrooms = ''N/A'', sqft = ''N/A'', image_url = None\<rparr>"

text \<open>
  A card with other markup than the sample card (an absolute link of the primary class, the
  title in a heading, the price under \<^verbatim>\<open>data-testid\<close>) and the same title, address and
  price; and the sample card with a price text without an amount.
\<close>

definition other_card :: node where
  "other_card =
     Tag ''li'' [(''data-testid'', ''listing-card'')]
       [Tag ''a'' [(''href'', ''https://streeteasy.com/building/z9''),
                   (''class'', ''ImageContainer-module__listingLink___sYIL9'')] [],
        Tag ''h3'' [] [NavigableString '' 120 East 5th Street 3A ''],
        Tag ''div'' [(''data-testid'', ''price'')] [NavigableString ''$2,500 net effective'']]"

definition other_listing :: listing where
  "other_listing =
     \<lparr>listing_id = generate_listing_id ''120 East 5th Street 3A'' ''120 East 5th Street''
        ''$2,500'',
      title = ''120 East 5th Street 3A'', price = ''$2,500'', address = ''120 East 5th Street'',
      url = ''https://streeteasy.com/building/z9'', bedrooms = ''N/A'',
      bathrooms = ''N/A'', sqft = ''N/A'', image_url = None\<rparr>"

definition unpriced_card :: node where
  "unpriced_card =
     Tag ''div'' [(''data-testid'', ''listing-card'')]
       [Tag ''a'' [(''href'', ''/rental/abc123'')]
          [Tag ''img'' [(''alt'', ''120 East 5th Street 3A'')] []],
        Tag ''span'' [(''class'', ''price'')] [NavigableString ''Call for rent'']]"

definition unpriced_listing :: listing where
  "unpriced_listing =
     \<lparr>listing_id = generate_listing_id ''120 East 5th Street 3A'' ''120 East 5th Street''
        ''N/A'',
      title = ''120 East 5th Street 3A'', price = ''N/A'', address = ''120 East 5th Street'',
      url = ''https://streeteasy.com/rental/abc123'', bedrooms = ''N/A'',
      bathrooms = ''N/A'', sqft = ''N/A'', image_url = None\<rparr>"

text \<open>
  A card whose link has no \<^verbatim>\<open>href\<close>, with its page; a card whose image has the alt text
  \<^verbatim>\<open>image 1 of 3\<close>; a card whose price text has no amount and has \<^verbatim>\<open>net\<close> inside a word;
  a card whose title has a no-break space before the unit.
\<close>

definition hrefless_card :: node where
  "hrefless_card =
     Tag ''div'' [(''data-testid'', ''listing-card'')]
       [Tag ''a'' [(''class'', ''ImageContainer-module__listingLink___sYIL9'')]
          [Tag ''img'' [(''alt'', ''120 East 5th Street 3A'')] []]]"

definition hrefless_page :: node where
  "hrefless_page = Tag ''[document]'' [] [hrefless_card]"

definition blank_title_card :: node where
  "blank_title_card =
     Tag ''div'' [(''data-testid'', ''listing-card'')]
       [Tag ''a'' [(''href'', ''/rental/abc123'')]
          [Tag ''img'' [(''alt'', ''image 1 of 3'')] []]]"

definition internet_card :: node where
  "internet_card =
     Tag ''div'' [(''data-testid'', ''listing-card'')]
       [Tag ''a'' [(''href'', ''/rental/abc123'')]
          [Tag ''img'' [(''alt'', ''120 East 5th Street 3A'')] []],
        Tag ''span'' [(''class'', ''price'')] [NavigableString ''$ internet incl.'']]"

definition nbsp_card :: node where
  "nbsp_card =
     Tag ''div'' [(''data-testid'', ''listing-card'')]
       [Tag ''a'' [(''href'', ''/rental/pp5'')]
          [Tag ''img'' [(''alt'', ''Park Place'' @ [CHR 0xC2, CHR 0xA0] @ ''5'')] []]]"

text \<open>
  Responses with status 200 and 403; a network that always answers 200, one that always
  answers 403, one that answers 403 to the first two requests and 200 afterwards, and two
  that always answer 200, with the page of the bare card and with the page of the card
  whose link has no \<^verbatim>\<open>href\<close>.
\<close>

definition ok_response :: response where
  "ok_response = \<lparr>status_code = 200, content = sample_page\<rparr>"

definition forbidden_response :: response where
  "forbidden_response = \<lparr>status_code = 403, content = Tag ''[document]'' [] []\<rparr>"

definition always_ok :: network where
  "always_ok n ua = Responded ok_response"

definition always_bare :: network where
  "always_bare n ua = Responded \<lparr>status_code = 200, content = bare_page\<rparr>"

definition always_hrefless :: network where
  "always_hrefless n ua = Responded \<lparr>status_code = 200, content = hrefless_page\<rparr>"

definition always_forbidden :: network where
  "always_forbidden n ua = Responded forbidden_response"

definition forbidden_twice :: network where
  "forbidden_twice n ua = (if n < 2 then Responded forbidden_response else Responded ok_response)"

text \<open>The session as \<^verbatim>\<open>__init__\<close> leaves it, and a tracker with an empty table.\<close>

definition new_session :: session where
  "new_session = \<lparr>user_agent = initial_user_agent, requests_sent = []\<rparr>"

definition new_tracker :: tracker where
  "new_tracker = \<lparr>session = new_session, apartments = Map.empty\<rparr>"

text \<open>
  The session after one request, after two requests, and after three requests with two
  draws (the draws 0 and 1); the tracker after a first and after a second cycle on the
  sample page, the first at time 10.
\<close>

definition session_after_one :: session where
  "session_after_one =
     \<lparr>user_agent = initial_user_agent, requests_sent = [initial_user_agent]\<rparr>"

definition session_after_two :: session where
  "session_after_two =
     \<lparr>user_agent = initial_user_agent,
      requests_sent = [initial_user_agent, initial_user_agent]\<rparr>"

definition rotated_session :: session where
  "rotated_session =
     \<lparr>user_agent = user_agents ! 1,
      requests_sent = [initial_user_agent, user_agents ! 0, user_agents ! 1]\<rparr>"

definition tracker_after_one :: tracker where
  "tracker_after_one =
     \<lparr>session = session_after_one,
      apartments = [listing_id sample_listing \<mapsto> (sample_listing, 10)]\<rparr>"

definition tracker_after_two :: tracker where
  "tracker_after_two =
     \<lparr>session = session_after_two,
      apartments = [listing_id sample_listing \<mapsto> (sample_listing, 10)]\<rparr>"

section \<open>Lemmas\<close>

subsection \<open>Strings\<close>

lemma py_in_iff: "py_in sub s \<longleftrightarrow> (\<exists>a b. s = a @ sub @ b)"
proof (induction s)
  case Nil
  show ?case by auto
next
  case (Cons c cs)
  show ?case
  proof
    assume "py_in sub (c # cs)"
    then consider "prefix sub (c # cs)" | "py_in sub cs" by auto
    then show "\<exists>a b. c # cs = a @ sub @ b"
    proof cases
      case 1
      then obtain b where "c # cs = sub @ b" by (auto simp: prefix_def)
      then have "c # cs = [] @ sub @ b" by simp
      then show ?thesis by blast
    next
      case 2
      with Cons.IH obtain a b where "cs = a @ sub @ b" by blast
      then have "c # cs = (c # a) @ sub @ b" by simp
      then show ?thesis by blast
    qed
  next
    assume "\<exists>a b. c # cs = a @ sub @ b"
    then obtain a b where ab: "c # cs = a @ sub @ b" by blast
    show "py_in sub (c # cs)"
    proof (cases a)
      case Nil
      with ab have "prefix sub (c # cs)" by (simp add: prefix_def)
      then show ?thesis by simp
    next
      case (Cons x xs)
      with ab have "cs = xs @ sub @ b" by simp
      with Cons.IH have "py_in sub cs" by blast
      then show ?thesis by simp
    qed
  qed
qed

lemma py_in_prefix: "py_in sub q \<Longrightarrow> prefix q s \<Longrightarrow> py_in sub s"
  unfolding py_in_iff prefix_def by (metis append.assoc)

lemma py_in_length: "py_in sub s \<Longrightarrow> length sub \<le> length s"
  unfolding py_in_iff by auto

lemma split_first_prefix: "prefix (split_first sep s) s"
  by (induction s) auto

lemma split_first_none: "\<not> py_in sep s \<Longrightarrow> split_first sep s = s"
  by (induction s) auto

lemma prefix_butlast_append: "prefix (r @ sep) s \<Longrightarrow> prefix (r @ butlast sep) s"
proof -
  assume "prefix (r @ sep) s"
  moreover have "prefix (r @ butlast sep) (r @ sep)" by (simp add: prefixeq_butlast)
  ultimately show ?thesis using prefix_order.trans by blast
qed

lemma split_first_cut: "sep \<noteq> [] \<Longrightarrow> cut_before sep s (split_first sep s)"
proof (induction s)
  case Nil
  then show ?case by (simp add: cut_before_def)
next
  case (Cons c cs)
  show ?case
  proof (cases "prefix sep (c # cs)")
    case True
    have "\<not> py_in sep (butlast sep)"
    proof
      assume "py_in sep (butlast sep)"
      then have "length sep \<le> length (butlast sep)" by (rule py_in_length)
      with Cons.prems show False by (cases sep rule: rev_cases) simp_all
    qed
    with True show ?thesis by (simp add: cut_before_def)
  next
    case False
    then have r: "split_first sep (c # cs) = c # split_first sep cs" by simp
    show ?thesis
    proof (cases "py_in sep cs")
      case no: False
      with False have "\<not> py_in sep (c # cs)" by simp
      moreover have "split_first sep (c # cs) = c # cs"
        using no r by (simp add: split_first_none)
      ultimately show ?thesis by (simp only: cut_before_def if_False)
    next
      case yes: True
      let ?r = "split_first sep cs"
      from Cons.IH [OF Cons.prems] yes
      have p: "prefix (?r @ sep) cs" and n: "\<not> py_in sep (?r @ butlast sep)"
        by (simp_all add: cut_before_def)
      have "prefix ((c # ?r) @ sep) (c # cs)" using p by simp
      moreover have "\<not> py_in sep ((c # ?r) @ butlast sep)"
      proof
        assume "py_in sep ((c # ?r) @ butlast sep)"
        with n have "prefix sep (c # ?r @ butlast sep)" by simp
        moreover have "prefix (c # ?r @ butlast sep) (c # cs)"
          using prefix_butlast_append [OF p] by simp
        ultimately have "prefix sep (c # cs)" by (rule prefix_order.trans)
        with False show False by simp
      qed
      moreover have "py_in sep (c # cs)" using yes by simp
      ultimately show ?thesis unfolding r by (simp only: cut_before_def if_True) simp
    qed
  qed
qed

lemma cut_before_unique:
  assumes "sep \<noteq> []" and "cut_before sep s r" and "cut_before sep s r'"
  shows "r = r'"
proof (cases "py_in sep s")
  case False
  with assms(2,3) show ?thesis by (simp add: cut_before_def)
next
  case True
  with assms(2,3) have p: "prefix (r @ sep) s" and n: "\<not> py_in sep (r @ butlast sep)"
    and p': "prefix (r' @ sep) s" and n': "\<not> py_in sep (r' @ butlast sep)"
    by (simp_all add: cut_before_def)
  have shorter: False
    if "prefix (a @ sep) s" and "prefix (b @ sep) s" and "\<not> py_in sep (b @ butlast sep)"
      and "length a < length b" for a b
  proof -
    have "prefix (b @ butlast sep) s" using that(2) by (rule prefix_butlast_append)
    moreover have "length (a @ sep) \<le> length (b @ butlast sep)"
      using that(4) assms(1) by (cases sep rule: rev_cases) simp_all
    ultimately have "prefix (a @ sep) (b @ butlast sep)"
      using that(1) by (meson prefix_length_prefix)
    then obtain rest where "b @ butlast sep = a @ sep @ rest" by (auto simp: prefix_def)
    then have "py_in sep (b @ butlast sep)" unfolding py_in_iff by blast
    with that(3) show False by simp
  qed
  have "length r = length r'"
    using shorter [OF p p' n'] shorter [OF p' p n] by (meson linorder_neqE_nat)
  moreover have "prefix r s" "prefix r' s"
    using p p' by (auto simp: prefix_def)
  ultimately show ?thesis by (metis prefix_length_prefix order_refl prefix_order.antisym)
qed

lemma search_price_None:
  "search_price chs = None \<longleftrightarrow>
     \<not> (\<exists>pre d post. chs = pre @ [''$'', d] @ post \<and> digit_or_comma d)"
proof (induction chs)
  case Nil
  show ?case by simp
next
  case (Cons c cs)
  show ?case
  proof (cases "c = ''$'' \<and> takeWhile digit_or_comma cs \<noteq> []")
    case True
    then obtain d ds where "cs = d # ds" "digit_or_comma d"
      by (cases cs) (auto split: if_splits)
    then have "c # cs = [] @ [''$'', d] @ ds \<and> digit_or_comma d" using True by simp
    then have "\<exists>pre d post. c # cs = pre @ [''$'', d] @ post \<and> digit_or_comma d" by blast
    with True show ?thesis by simp
  next
    case False
    have step: "search_price (c # cs) = search_price cs"
      using False by auto
    have shift: "(\<exists>pre d post. c # cs = pre @ [''$'', d] @ post \<and> digit_or_comma d) \<longleftrightarrow>
        (\<exists>pre d post. cs = pre @ [''$'', d] @ post \<and> digit_or_comma d)"
    proof
      assume "\<exists>pre d post. c # cs = pre @ [''$'', d] @ post \<and> digit_or_comma d"
      then obtain pre d post where e: "c # cs = pre @ [''$'', d] @ post" "digit_or_comma d"
        by blast
      show "\<exists>pre d post. cs = pre @ [''$'', d] @ post \<and> digit_or_comma d"
      proof (cases pre)
        case Nil
        with e have "c = ''$''" "cs = d # post" by simp_all
        with e(2) False show ?thesis by simp
      next
        case (Cons x xs)
        with e have "cs = xs @ [''$'', d] @ post" by simp
        with e(2) show ?thesis by blast
      qed
    next
      assume "\<exists>pre d post. cs = pre @ [''$'', d] @ post \<and> digit_or_comma d"
      then obtain pre d post where e: "cs = pre @ [''$'', d] @ post" "digit_or_comma d"
        by blast
      then have "c # cs = (c # pre) @ [''$'', d] @ post" by simp
      with e(2) show "\<exists>pre d post. c # cs = pre @ [''$'', d] @ post \<and> digit_or_comma d"
        by blast
    qed
    show ?thesis unfolding step shift by (rule Cons.IH)
  qed
qed

lemma search_price_Some:
  "search_price chs = Some tok \<Longrightarrow>
     \<exists>pre ds post. chs = pre @ [''$''] @ ds @ post \<and> tok = concat (''$'' # ds) \<and> ds \<noteq> []
       \<and> (\<forall>c \<in> set ds. digit_or_comma c)
       \<and> (post = [] \<or> \<not> digit_or_comma (hd post))
       \<and> search_price pre = None"
proof (induction chs)
  case Nil
  then show ?case by simp
next
  case (Cons c cs)
  show ?case
  proof (cases "c = ''$'' \<and> takeWhile digit_or_comma cs \<noteq> []")
    case True
    let ?ds = "takeWhile digit_or_comma cs"
    let ?post = "dropWhile digit_or_comma cs"
    from True Cons.prems have tok: "tok = concat (''$'' # ?ds)" by simp
    have "c # cs = [] @ [''$''] @ ?ds @ ?post" using True by simp
    moreover have "\<forall>c \<in> set ?ds. digit_or_comma c" by (auto dest: set_takeWhileD)
    moreover have "?post = [] \<or> \<not> digit_or_comma (hd ?post)"
      by (metis hd_dropWhile)
    moreover have "search_price [] = None" by simp
    ultimately show ?thesis using tok True by blast
  next
    case False
    with Cons.prems have "search_price cs = Some tok" by auto
    from Cons.IH [OF this] obtain pre ds post where
      e: "cs = pre @ [''$''] @ ds @ post" "tok = concat (''$'' # ds)" "ds \<noteq> []"
        "\<forall>c \<in> set ds. digit_or_comma c" "post = [] \<or> \<not> digit_or_comma (hd post)"
        "search_price pre = None"
      by blast
    have "c # cs = (c # pre) @ [''$''] @ ds @ post" using e(1) by simp
    moreover have "search_price (c # pre) = None"
    proof (cases "c = ''$''")
      case False
      with e(6) show ?thesis by simp
    next
      case True
      with False have t: "takeWhile digit_or_comma cs = []" by simp
      have "takeWhile digit_or_comma pre = []"
      proof (cases pre)
        case Nil
        then show ?thesis by simp
      next
        case (Cons x xs)
        with t e(1) have "\<not> digit_or_comma x" by (auto split: if_splits)
        with Cons show ?thesis by simp
      qed
      with e(6) show ?thesis by simp
    qed
    ultimately show ?thesis using e(2-5) by blast
  qed
qed

lemma concat_group_chars: "concat (group_chars cur s) = cur @ s"
  by (induction s arbitrary: cur) simp_all

lemma concat_chars: "concat (chars s) = s"
  by (simp add: chars_def concat_group_chars)

lemma group_chars_append:
  "y \<noteq> [] \<Longrightarrow> \<not> continuation (hd y) \<Longrightarrow>
     group_chars cur (x @ y) = group_chars cur x @ group_chars [] y"
proof (induction x arbitrary: cur)
  case Nil
  then show ?case by (cases y) simp_all
next
  case (Cons a x)
  then show ?case by simp
qed

lemma chars_append:
  "y \<noteq> [] \<Longrightarrow> \<not> continuation (hd y) \<Longrightarrow> chars (x @ y) = chars x @ chars y"
  by (simp add: chars_def group_chars_append)

lemma split_runs_token:
  "\<forall>ch \<in> set w. \<not> py_isspace ch \<Longrightarrow> split_runs cur (w @ rest) = split_runs (cur @ concat w) rest"
  by (induction w arbitrary: cur) simp_all

lemma chars_space: "y \<noteq> [] \<Longrightarrow> \<not> continuation (hd y) \<Longrightarrow> chars ('' '' @ y) = '' '' # chars y"
proof -
  assume y: "y \<noteq> []" "\<not> continuation (hd y)"
  have "chars ('' '' @ y) = chars '' '' @ chars y" using y by (rule chars_append)
  moreover have "chars '' '' = ['' '']" by (simp add: chars_def continuation_def)
  ultimately show ?thesis by simp
qed

lemma py_join_hd:
  "ws \<noteq> [] \<Longrightarrow> \<forall>w \<in> set ws. w \<noteq> [] \<Longrightarrow>
     py_join sep ws \<noteq> [] \<and> hd (py_join sep ws) = hd (hd ws)"
  by (induction sep ws rule: py_join.induct) simp_all

lemma py_split_join:
  "\<forall>w \<in> set ws. w \<noteq> [] \<and> \<not> continuation (hd w) \<and> (\<forall>ch \<in> set (chars w). \<not> py_isspace ch) \<Longrightarrow>
     py_split (py_join '' '' ws) = ws"
proof (induction "'' ''" ws rule: py_join.induct)
  case 1
  show ?case by (simp add: py_split_def chars_def)
next
  case (2 x)
  then have "split_runs [] (chars x @ []) = split_runs ([] @ concat (chars x)) []"
    by (intro split_runs_token) simp
  with 2 show ?case by (simp add: py_split_def concat_chars)
next
  case (3 x y ys)
  then have x: "x \<noteq> []" "\<forall>ch \<in> set (chars x). \<not> py_isspace ch" by simp_all
  let ?rest = "py_join '' '' (y # ys)"
  have rest: "?rest \<noteq> [] \<and> hd ?rest = hd y"
    using py_join_hd [of "y # ys" "'' ''"] 3(2) by simp
  with 3(2) have nc: "?rest \<noteq> []" "\<not> continuation (hd ?rest)" by simp_all
  have sp: "py_isspace '' ''" by (simp add: py_isspace_def whitespace_chars_def)
  have "chars (x @ '' '' @ ?rest) = chars x @ chars ('' '' @ ?rest)"
    by (rule chars_append) (simp_all add: continuation_def)
  also have "\<dots> = chars x @ '' '' # chars ?rest"
    by (simp only: chars_space [OF nc])
  finally have c: "chars (x @ '' '' @ ?rest) = chars x @ '' '' # chars ?rest" .
  have "split_runs [] (chars x @ '' '' # chars ?rest) =
      split_runs ([] @ concat (chars x)) ('' '' # chars ?rest)"
    using x(2) by (rule split_runs_token)
  also have "\<dots> = x # split_runs [] (chars ?rest)"
    using x(1) sp by (simp add: concat_chars)
  also have "split_runs [] (chars ?rest) = y # ys"
    using 3 by (simp add: py_split_def)
  finally have "split_runs [] (chars x @ '' '' # chars ?rest) = x # y # ys" .
  then show ?case unfolding py_split_def py_join.simps c .
qed

subsection \<open>One card\<close>

lemma full_url_of_http: "startswith (full_url_of link_elem) ''http''"
  by (simp add: full_url_of_def Let_def startswith_def base_origin_def)

lemma full_url_of_nonempty: "full_url_of link_elem \<noteq> []"
  using full_url_of_http [of link_elem] by (auto simp: startswith_def)

lemma classify_none:
  assumes "\<forall>item \<in> set items.
      \<not> py_in ''bed'' (py_lower (get_text_strip item))
      \<and> \<not> py_in ''bath'' (py_lower (get_text_strip item))
      \<and> \<not> py_in sqft_marker (py_lower (get_text_strip item))"
  shows "foldl classify_item acc items = acc"
  using assms
proof (induction items arbitrary: acc)
  case Nil
  show ?case by simp
next
  case (Cons item items)
  then have "classify_item acc item = acc"
    by (cases acc) (simp add: classify_item_def Let_def)
  with Cons show ?case by simp
qed

lemma scrape_card_SomeD:
  assumes "scrape_card crd = Some l"
  obtains link_elem where "extract_link crd = Some link_elem"
    and "extract_title crd \<noteq> NA" and "full_url_of link_elem \<noteq> []"
    and "l = \<lparr>listing_id = generate_listing_id (extract_title crd)
                 (extract_address (extract_title crd)) (extract_price crd),
               title = extract_title crd, price = extract_price crd,
               address = extract_address (extract_title crd), url = full_url_of link_elem,
               bedrooms = fst (extract_beds_baths_sqft crd),
               bathrooms = fst (snd (extract_beds_baths_sqft crd)),
               sqft = snd (snd (extract_beds_baths_sqft crd)),
               image_url = extract_image_url crd\<rparr>"
proof (cases "extract_link crd")
  case None
  with assms show ?thesis by (simp add: scrape_card_def)
next
  case (Some link_elem)
  show ?thesis
  proof (cases "extract_title crd = NA \<or> full_url_of link_elem = []")
    case True
    with assms Some show ?thesis by (simp add: scrape_card_def Let_def)
  next
    case False
    with assms Some have "l = \<lparr>listing_id = generate_listing_id (extract_title crd)
                 (extract_address (extract_title crd)) (extract_price crd),
               title = extract_title crd, price = extract_price crd,
               address = extract_address (extract_title crd), url = full_url_of link_elem,
               bedrooms = fst (extract_beds_baths_sqft crd),
               bathrooms = fst (snd (extract_beds_baths_sqft crd)),
               sqft = snd (snd (extract_beds_baths_sqft crd)),
               image_url = extract_image_url crd\<rparr>"
      by (simp add: scrape_card_def Let_def)
    with False Some that show ?thesis by blast
  qed
qed

lemma scrape_card_id:
  "scrape_card crd = Some l \<Longrightarrow>
     listing_id l = generate_listing_id (title l) (address l) (price l)"
  by (erule scrape_card_SomeD) simp

lemma scrape_card_dropped:
  "extract_link crd = None \<or> extract_title crd = NA \<Longrightarrow> scrape_card crd = None"
  by (auto simp: scrape_card_def Let_def split: option.splits)

lemma scrape_card_emitted:
  assumes "extract_link crd = Some link_elem" and "extract_title crd \<noteq> NA"
  shows "scrape_card crd =
     Some \<lparr>listing_id = generate_listing_id (extract_title crd)
                 (extract_address (extract_title crd)) (extract_price crd),
               title = extract_title crd, price = extract_price crd,
               address = extract_address (extract_title crd), url = full_url_of link_elem,
               bedrooms = fst (extract_beds_baths_sqft crd),
               bathrooms = fst (snd (extract_beds_baths_sqft crd)),
               sqft = snd (snd (extract_beds_baths_sqft crd)),
               image_url = extract_image_url crd\<rparr>"
  using assms full_url_of_nonempty [of link_elem] by (simp add: scrape_card_def Let_def)

lemma scrape_card_fields:
  assumes "extract_link crd = Some link_elem" and "extract_title crd \<noteq> NA"
  shows "map_option url (scrape_card crd) = Some (full_url_of link_elem)"
    and "map_option title (scrape_card crd) = Some (extract_title crd)"
    and "map_option price (scrape_card crd) = Some (extract_price crd)"
    and "map_option address (scrape_card crd) = Some (extract_address (extract_title crd))"
  unfolding scrape_card_emitted [OF assms] by simp_all

subsection \<open>One page\<close>

lemma in_set_map_filter:
  "y \<in> set (List.map_filter f xs) \<longleftrightarrow> (\<exists>x \<in> set xs. f x = Some y)"
  by (induction xs) (auto simp: List.map_filter_simps split: option.splits)

lemma scrape_listings_cases:
  "scrape_listings net rnd sess = ([], snd (get_page_with_retry net rnd 3 sess)) \<or>
   (\<exists>resp. fst (get_page_with_retry net rnd 3 sess) = Inr resp \<and>
      scrape_listings net rnd sess =
        (List.map_filter scrape_card (select ([], content resp) listing_card_sel),
         snd (get_page_with_retry net rnd 3 sess)))"
proof (cases "get_page_with_retry net rnd 3 sess")
  case (Pair res sess')
  show ?thesis
  proof (cases res)
    case (Inl e)
    with Pair show ?thesis by (simp add: scrape_listings_def)
  next
    case (Inr resp)
    with Pair show ?thesis by (simp add: scrape_listings_def Let_def)
  qed
qed

lemma scrape_listings_card:
  assumes "l \<in> set (fst (scrape_listings net rnd sess))"
  shows "\<exists>crd. scrape_card crd = Some l"
proof -
  from scrape_listings_cases [of net rnd sess] assms
  obtain resp :: response where
    "l \<in> set (List.map_filter scrape_card (select ([], content resp) listing_card_sel))"
    by auto
  then show ?thesis unfolding in_set_map_filter by blast
qed

lemma scrape_listings_id:
  "l \<in> set (fst (scrape_listings net rnd sess)) \<Longrightarrow>
     listing_id l = generate_listing_id (title l) (address l) (price l)"
  using scrape_listings_card scrape_card_id by blast

lemma scrape_listings_ok:
  assumes "fst (get_page_with_retry net rnd 3 sess) = Inr resp"
  shows "fst (scrape_listings net rnd sess) =
     List.map_filter scrape_card (select ([], content resp) listing_card_sel)"
proof (cases "get_page_with_retry net rnd 3 sess")
  case (Pair res sess')
  with assms have "res = Inr resp" by simp
  with Pair show ?thesis
    by (simp add: scrape_listings_def Let_def List.map_filter_simps)
qed

lemma scrape_listings_failed:
  assumes "fst (get_page_with_retry net rnd 3 sess) = Inl e"
  shows "fst (scrape_listings net rnd sess) = []"
proof (cases "get_page_with_retry net rnd 3 sess")
  case (Pair res sess')
  with assms have "res = Inl e" by simp
  with Pair show ?thesis by (simp add: scrape_listings_def)
qed

lemma scrape_listings_emits:
  assumes "fst (get_page_with_retry net rnd 3 sess) = Inr resp"
    and "crd \<in> set (select ([], content resp) listing_card_sel)"
    and "scrape_card crd = Some l"
  shows "l \<in> set (fst (scrape_listings net rnd sess))"
  unfolding scrape_listings_ok [OF assms(1)] in_set_map_filter using assms(2,3) by blast

subsection \<open>The retry loop\<close>

lemma retry_exhausted:
  "\<not> int a < m \<Longrightarrow>
     get_page_with_retry_from net rnd m a sess = (Inl (RequestException m), sess)"
  by (simp add: get_page_with_retry_from.simps)

lemma retry_success:
  "int a < m \<Longrightarrow> net (length (requests_sent sess)) (user_agent sess) = Responded resp \<Longrightarrow>
   status_code resp = 200 \<Longrightarrow>
     get_page_with_retry_from net rnd m a sess =
       (Inr resp, sess\<lparr>requests_sent := requests_sent sess @ [user_agent sess]\<rparr>)"
  by (simp add: get_page_with_retry_from.simps [of net rnd m a sess])

lemma retry_failure:
  "int a < m \<Longrightarrow> failed (net (length (requests_sent sess)) (user_agent sess)) \<Longrightarrow>
     get_page_with_retry_from net rnd m a sess =
       get_page_with_retry_from net rnd m (Suc a)
         (sess\<lparr>requests_sent := requests_sent sess @ [user_agent sess],
               user_agent :=
                 if forbidden (net (length (requests_sent sess)) (user_agent sess))
                    \<and> int a < m - 1
                 then random_choice (rnd (length (requests_sent sess))) user_agents
                 else user_agent sess\<rparr>)"
  by (cases "net (length (requests_sent sess)) (user_agent sess)")
    (simp_all add: get_page_with_retry_from.simps [of net rnd m a sess] failed_def forbidden_def
       Let_def)

lemma not_failed:
  "\<not> failed out \<Longrightarrow> \<exists>resp. out = Responded resp \<and> status_code resp = 200"
  by (cases out) (simp_all add: failed_def)

lemma retry_from_post:
  "get_page_with_retry_from net rnd m a sess = (res, sess') \<Longrightarrow>
     (case res of Inl e \<Rightarrow> e = RequestException m | Inr resp \<Rightarrow> True)
     \<and> (\<exists>tr. requests_sent sess' = requests_sent sess @ tr
           \<and> fetch_post net rnd (m - int a) sess res tr)"
proof (induction "nat (m - int a)" arbitrary: a sess)
  case 0
  then have "\<not> int a < m" by simp
  with "0.prems" have "res = Inl (RequestException m)" "sess' = sess"
    by (simp_all add: retry_exhausted)
  moreover have "m - int a \<le> 0" using \<open>\<not> int a < m\<close> by simp
  ultimately show ?case by (simp add: fetch_post_def)
next
  case (Suc n)
  then have lt: "int a < m" by simp
  let ?k = "length (requests_sent sess)"
  let ?ua = "user_agent sess"
  show ?case
  proof (cases "failed (net ?k ?ua)")
    case False
    then obtain resp where r: "net ?k ?ua = Responded resp" "status_code resp = 200"
      using not_failed by blast
    with lt Suc.prems have "res = Inr resp"
      "sess' = sess\<lparr>requests_sent := requests_sent sess @ [?ua]\<rparr>"
      by (simp_all add: retry_success)
    with r lt show ?thesis by (simp add: fetch_post_def)
  next
    case True
    let ?next = "if forbidden (net ?k ?ua) \<and> int a < m - 1
                 then random_choice (rnd ?k) user_agents else ?ua"
    let ?s = "sess\<lparr>requests_sent := requests_sent sess @ [?ua], user_agent := ?next\<rparr>"
    from lt True Suc.prems have rec: "get_page_with_retry_from net rnd m (Suc a) ?s = (res, sess')"
      by (simp only: retry_failure)
    have n: "n = nat (m - int (Suc a))" using Suc.hyps(2) by simp
    from Suc.hyps(1) [OF n rec] obtain tr where
      e: "case res of Inl e \<Rightarrow> e = RequestException m | Inr resp \<Rightarrow> True" and
      t: "requests_sent sess' = requests_sent ?s @ tr" and
      p: "fetch_post net rnd (m - int (Suc a)) ?s res tr"
      by blast
    have p1: "int (length tr) \<le> max 0 (m - int (Suc a))"
      and p2: "tr \<noteq> [] \<longrightarrow> hd tr = ?next"
      and p3: "retry_chain net rnd (Suc ?k) tr"
      and p4: "case res of
            Inr resp \<Rightarrow> tr \<noteq> [] \<and> status_code resp = 200
              \<and> net (Suc ?k + length tr - 1) (last tr) = Responded resp
          | Inl e \<Rightarrow> int (length tr) = max 0 (m - int (Suc a))
              \<and> all_failed net (Suc ?k) tr"
      using p by (simp_all add: fetch_post_def split: sum.splits)
    have len: "int (length (?ua # tr)) \<le> max 0 (m - int a)"
      using p1 lt by simp
    have chain: "retry_chain net rnd ?k (?ua # tr)"
    proof (cases tr)
      case Nil
      then show ?thesis by simp
    next
      case (Cons v vs)
      with p1 have "int (Suc a) < m" by (simp add: max_def split: if_splits)
      then have "int a < m - 1" by simp
      moreover from p2 Cons have "v = ?next" by simp
      ultimately show ?thesis using True Cons p3 by simp
    qed
    have res: "case res of
            Inr resp \<Rightarrow> ?ua # tr \<noteq> [] \<and> status_code resp = 200
              \<and> net (?k + length (?ua # tr) - 1) (last (?ua # tr)) = Responded resp
          | Inl e \<Rightarrow> int (length (?ua # tr)) = max 0 (m - int a)
              \<and> all_failed net ?k (?ua # tr)"
    proof (cases res)
      case (Inl e)
      with p4 True lt show ?thesis by simp
    next
      case (Inr resp)
      with p4 have "tr \<noteq> []" by simp
      with p4 Inr show ?thesis by simp
    qed
    have "fetch_post net rnd (m - int a) sess res (?ua # tr)"
      unfolding fetch_post_def using len chain res by simp
    moreover have "requests_sent sess' = requests_sent sess @ (?ua # tr)"
      using t by simp
    ultimately show ?thesis using e by blast
  qed
qed

lemma get_page_with_retry_bound:
  "int (length (attempts sess (snd (get_page_with_retry net rnd m sess)))) \<le> max 0 m"
proof (cases "get_page_with_retry net rnd m sess")
  case (Pair res sess')
  then have "get_page_with_retry_from net rnd m 0 sess = (res, sess')"
    by (simp add: get_page_with_retry_def)
  from retry_from_post [OF this] obtain tr where
    t: "requests_sent sess' = requests_sent sess @ tr" and
    p: "fetch_post net rnd (m - int 0) sess res tr"
    by blast
  from p have "int (length tr) \<le> max 0 m" by (simp add: fetch_post_def)
  moreover from t have "attempts sess sess' = tr" by (simp add: attempts_def)
  ultimately show ?thesis using Pair by simp
qed

lemma scrape_listings_session:
  "snd (scrape_listings net rnd sess) = snd (get_page_with_retry net rnd 3 sess)"
proof (cases "get_page_with_retry net rnd 3 sess")
  case (Pair res sess')
  then show ?thesis
    by (cases res) (simp_all add: scrape_listings_def Let_def)
qed

lemma retry_chain_nth:
  "retry_chain net rnd k tr \<Longrightarrow> Suc i < length tr \<Longrightarrow>
     failed (net (k + i) (tr ! i))
     \<and> tr ! Suc i =
         (if forbidden (net (k + i) (tr ! i)) then random_choice (rnd (k + i)) user_agents
          else tr ! i)"
proof (induction tr arbitrary: k i)
  case Nil
  then show ?case by simp
next
  case (Cons u us)
  then obtain v vs where us: "us = v # vs" by (cases us) auto
  show ?case
  proof (cases i)
    case 0
    with Cons.prems us show ?thesis by simp
  next
    case (Suc j)
    from Cons.prems(1) have "retry_chain net rnd k (u # v # vs)" unfolding us .
    then have "retry_chain net rnd (Suc k) (v # vs)"
      unfolding retry_chain.simps(1) by blast
    then have "retry_chain net rnd (Suc k) us" unfolding us .
    moreover from Cons.prems Suc have "Suc j < length us" by simp
    ultimately have "failed (net (Suc k + j) (us ! j))
     \<and> us ! Suc j =
         (if forbidden (net (Suc k + j) (us ! j)) then random_choice (rnd (Suc k + j)) user_agents
          else us ! j)"
      by (rule Cons.IH)
    with Suc show ?thesis by simp
  qed
qed

lemma all_failed_nth:
  "all_failed net k tr \<Longrightarrow> i < length tr \<Longrightarrow> failed (net (k + i) (tr ! i))"
proof (induction tr arbitrary: k i)
  case Nil
  then show ?case by simp
next
  case (Cons u us)
  show ?case
  proof (cases i)
    case 0
    with Cons.prems show ?thesis by simp
  next
    case (Suc j)
    from Cons.prems Suc have "failed (net (Suc k + j) (us ! j))"
      by (intro Cons.IH) simp_all
    with Suc show ?thesis by simp
  qed
qed

lemma random_choice_user_agents: "random_choice r user_agents \<in> set user_agents"
  unfolding random_choice_def by (rule nth_mem) (simp add: user_agents_def)

subsection \<open>The table and the loop over the listings\<close>

lemma save_listing_present: "db (listing_id l) = Some r \<Longrightarrow> save_listing now l db = db"
  by (simp add: save_listing_def)

lemma save_listing_lookup_self: "save_listing now l db (listing_id l) \<noteq> None"
  by (simp add: save_listing_def split: option.splits)

lemma is_new_listing_dom: "is_new_listing d k \<longleftrightarrow> k \<notin> dom d"
  by (auto simp: is_new_listing_def)

lemma dom_save_listing: "dom (save_listing now l d) = insert (listing_id l) (dom d)"
  by (auto simp: save_listing_def split: option.splits)

lemma new_listings_loop_known:
  "listing_id ` set ls \<subseteq> dom d \<Longrightarrow> new_listings_loop clock i ls new d = (new, d)"
  by (induction ls arbitrary: i) (auto simp: is_new_listing_dom)

lemma new_listings_loop_acc:
  "new_listings_loop clock i ls new d =
     (new @ fst (new_listings_loop clock i ls [] d), snd (new_listings_loop clock i ls [] d))"
proof (induction ls arbitrary: i new d)
  case Nil
  show ?case by simp
next
  case (Cons l ls)
  show ?case
  proof (cases "is_new_listing d (listing_id l)")
    case True
    let ?d = "save_listing (clock i) l d"
    have a: "new_listings_loop clock (Suc i) ls (new @ [l]) ?d =
        ((new @ [l]) @ fst (new_listings_loop clock (Suc i) ls [] ?d),
         snd (new_listings_loop clock (Suc i) ls [] ?d))"
      by (rule Cons.IH)
    have b: "new_listings_loop clock (Suc i) ls [l] ?d =
        ([l] @ fst (new_listings_loop clock (Suc i) ls [] ?d),
         snd (new_listings_loop clock (Suc i) ls [] ?d))"
      by (rule Cons.IH)
    have "new_listings_loop clock i (l # ls) new d =
        new_listings_loop clock (Suc i) ls (new @ [l]) ?d"
      using True by simp
    moreover have "new_listings_loop clock i (l # ls) [] d =
        new_listings_loop clock (Suc i) ls [l] ?d"
      using True by simp
    ultimately show ?thesis by (simp only: a b fst_conv snd_conv append_assoc)
  next
    case False
    have "new_listings_loop clock i (l # ls) new d = new_listings_loop clock (Suc i) ls new d"
      using False by simp
    moreover have "new_listings_loop clock i (l # ls) [] d =
        new_listings_loop clock (Suc i) ls [] d"
      using False by simp
    ultimately show ?thesis by (simp only: Cons.IH [of "Suc i" new d])
  qed
qed

lemma loop_Cons_new:
  "is_new_listing d (listing_id l) \<Longrightarrow>
     fst (new_listings_loop clock i (l # ls) [] d) =
       l # fst (new_listings_loop clock (Suc i) ls [] (save_listing (clock i) l d))
   \<and> snd (new_listings_loop clock i (l # ls) [] d) =
       snd (new_listings_loop clock (Suc i) ls [] (save_listing (clock i) l d))"
  using new_listings_loop_acc [of clock "Suc i" ls "[l]" "save_listing (clock i) l d"]
  by simp

lemma loop_Cons_known:
  "\<not> is_new_listing d (listing_id l) \<Longrightarrow>
     new_listings_loop clock i (l # ls) [] d = new_listings_loop clock (Suc i) ls [] d"
  by simp

lemma loop_dom:
  "dom (snd (new_listings_loop clock i ls [] d)) = dom d \<union> listing_id ` set ls"
proof (induction ls arbitrary: i d)
  case Nil
  show ?case by simp
next
  case (Cons l ls)
  show ?case
  proof (cases "is_new_listing d (listing_id l)")
    case True
    then show ?thesis
      by (simp only: loop_Cons_new Cons.IH dom_save_listing) auto
  next
    case False
    then have "listing_id l \<in> dom d" by (simp add: is_new_listing_dom)
    then show ?thesis
      by (simp only: loop_Cons_known [OF False] Cons.IH) auto
  qed
qed

lemma loop_subset:
  "set (fst (new_listings_loop clock i ls [] d)) \<subseteq> set ls"
proof (induction ls arbitrary: i d)
  case Nil
  show ?case by simp
next
  case (Cons l ls)
  show ?case
  proof (cases "is_new_listing d (listing_id l)")
    case True
    have "set (fst (new_listings_loop clock (Suc i) ls [] (save_listing (clock i) l d))) \<subseteq> set ls"
      by (rule Cons.IH)
    then show ?thesis using True by (simp only: loop_Cons_new) auto
  next
    case False
    have "set (fst (new_listings_loop clock (Suc i) ls [] d)) \<subseteq> set ls"
      by (rule Cons.IH)
    then show ?thesis by (simp only: loop_Cons_known [OF False]) auto
  qed
qed

lemma loop_fresh:
  "x \<in> set (fst (new_listings_loop clock i ls [] d)) \<Longrightarrow> listing_id x \<notin> dom d"
proof (induction ls arbitrary: i d)
  case Nil
  then show ?case by simp
next
  case (Cons l ls)
  show ?case
  proof (cases "is_new_listing d (listing_id l)")
    case True
    with Cons.prems have "x = l \<or>
        x \<in> set (fst (new_listings_loop clock (Suc i) ls [] (save_listing (clock i) l d)))"
      by (simp only: loop_Cons_new) auto
    then show ?thesis
    proof
      assume "x = l"
      with True show ?thesis by (simp add: is_new_listing_dom)
    next
      assume "x \<in> set (fst (new_listings_loop clock (Suc i) ls [] (save_listing (clock i) l d)))"
      then have "listing_id x \<notin> dom (save_listing (clock i) l d)" by (rule Cons.IH)
      then show ?thesis by (simp add: dom_save_listing)
    qed
  next
    case False
    from Cons.prems have "x \<in> set (fst (new_listings_loop clock (Suc i) ls [] d))"
      by (simp only: loop_Cons_known [OF False])
    then show ?thesis by (rule Cons.IH)
  qed
qed

lemma loop_distinct:
  "distinct (map listing_id (fst (new_listings_loop clock i ls [] d)))"
proof (induction ls arbitrary: i d)
  case Nil
  show ?case by simp
next
  case (Cons l ls)
  show ?case
  proof (cases "is_new_listing d (listing_id l)")
    case True
    let ?rest = "fst (new_listings_loop clock (Suc i) ls [] (save_listing (clock i) l d))"
    have "distinct (map listing_id ?rest)" by (rule Cons.IH)
    moreover have "listing_id l \<notin> listing_id ` set ?rest"
    proof
      assume "listing_id l \<in> listing_id ` set ?rest"
      then obtain x where x: "x \<in> set ?rest" "listing_id x = listing_id l" by auto
      from loop_fresh [OF x(1)] have "listing_id x \<notin> dom (save_listing (clock i) l d)" .
      with x(2) show False by (simp add: dom_save_listing)
    qed
    ultimately show ?thesis using True by (simp only: loop_Cons_new) simp
  next
    case False
    have "distinct (map listing_id (fst (new_listings_loop clock (Suc i) ls [] d)))"
      by (rule Cons.IH)
    then show ?thesis by (simp only: loop_Cons_known [OF False])
  qed
qed

lemma distinct_same_key:
  "distinct (map f xs) \<Longrightarrow> (\<And>x. x \<in> set xs \<Longrightarrow> P x \<Longrightarrow> f x = k) \<Longrightarrow>
     length (filter P xs) \<le> 1"
proof (induction xs)
  case Nil
  then show ?case by simp
next
  case (Cons x xs)
  show ?case
  proof (cases "P x")
    case True
    have "filter P xs = []"
    proof (rule ccontr)
      assume "filter P xs \<noteq> []"
      then obtain y where "y \<in> set xs" "P y"
        by (metis filter_False)
      with Cons.prems True have "f y = f x" by simp
      moreover have "f x \<notin> f ` set xs" using Cons.prems(1) by simp
      moreover have "f y \<in> f ` set xs" using \<open>y \<in> set xs\<close> by simp
      ultimately show False by simp
    qed
    with True show ?thesis by simp
  next
    case False
    with Cons show ?thesis by simp
  qed
qed

lemma check_new_cases:
  assumes "check_for_new_listings net rnd clock tr = (new, tr')"
  shows "(new = [] \<and> apartments tr' = apartments tr) \<or>
     new_listings_loop clock 0 (fst (scrape_listings net rnd (session tr))) []
         (apartments tr) = (new, apartments tr')"
proof (cases "scrape_listings net rnd (session tr)")
  case (Pair listings sess')
  show ?thesis
  proof (cases "listings = []")
    case True
    with Pair assms show ?thesis by (auto simp: check_for_new_listings_def)
  next
    case False
    obtain n d where l: "new_listings_loop clock 0 listings [] (apartments tr) = (n, d)"
      by (cases "new_listings_loop clock 0 listings [] (apartments tr)")
    with Pair False assms show ?thesis by (auto simp: check_for_new_listings_def)
  qed
qed

lemma check_for_new_listings_result:
  "fst (check_for_new_listings net rnd clock tr) =
     fst (new_listings_loop clock 0 (fst (scrape_listings net rnd (session tr))) []
            (apartments tr))
   \<and> apartments (snd (check_for_new_listings net rnd clock tr)) =
     snd (new_listings_loop clock 0 (fst (scrape_listings net rnd (session tr))) []
            (apartments tr))"
proof (cases "scrape_listings net rnd (session tr)")
  case (Pair listings sess')
  show ?thesis
  proof (cases "listings = []")
    case True
    with Pair show ?thesis by (simp add: check_for_new_listings_def)
  next
    case False
    with Pair show ?thesis
      by (cases "new_listings_loop clock 0 listings [] (apartments tr)")
        (simp add: check_for_new_listings_def)
  qed
qed

subsection \<open>The sample values, evaluated\<close>

lemma sample_fetch:
  "get_page_with_retry always_ok (\<lambda>n. n) 3 new_session = (Inr ok_response, session_after_one)"
  by code_simp

lemma second_fetch:
  "get_page_with_retry always_ok (\<lambda>n. n) 3 session_after_one =
     (Inr ok_response, session_after_two)"
  by code_simp

lemma forbidden_fetch:
  "get_page_with_retry always_forbidden (\<lambda>n. n) 3 new_session =
     (Inl (RequestException 3), rotated_session)"
  by code_simp

lemma forbidden_twice_fetch:
  "get_page_with_retry forbidden_twice (\<lambda>n. n) 3 new_session = (Inr ok_response, rotated_session)"
  by code_simp

lemma sample_cards:
  "select ([], sample_page) listing_card_sel =
     [([sample_page], sample_card), ([sample_page], sample_card)]"
  by code_simp

lemma sample_link:
  "extract_link ([sample_page], sample_card) =
     Some ([sample_card, sample_page], Tag ''a'' [(''href'', ''/rental/abc123'')]
          [Tag ''img'' [(''alt'', ''120 East 5th Street 3A'')] []])"
  by code_simp

lemma sample_url:
  "full_url_of ([sample_card, sample_page], Tag ''a'' [(''href'', ''/rental/abc123'')]
          [Tag ''img'' [(''alt'', ''120 East 5th Street 3A'')] []]) =
     ''https://streeteasy.com/rental/abc123''"
  by code_simp

lemma sample_title: "extract_title ([sample_page], sample_card) = ''120 East 5th Street 3A''"
  by code_simp

lemma sample_price: "extract_price ([sample_page], sample_card) = ''$2,500''"
  by code_simp

lemma sample_address:
  "extract_address ''120 East 5th Street 3A'' = ''120 East 5th Street''"
  by code_simp

lemma sample_beds:
  "extract_beds_baths_sqft ([sample_page], sample_card) = (''N/A'', ''N/A'', ''N/A'')"
  by code_simp

lemma sample_image_url: "extract_image_url ([sample_page], sample_card) = None"
  by code_simp

lemma sample_scrape_card: "scrape_card ([sample_page], sample_card) = Some sample_listing"
  by (simp add: scrape_card_def sample_link sample_url sample_title sample_price
      sample_address sample_beds sample_image_url sample_listing_def NA_def Let_def)

lemma sample_scrape:
  "scrape_listings always_ok (\<lambda>n. n) new_session =
     ([sample_listing, sample_listing], session_after_one)"
  by (simp add: scrape_listings_def sample_fetch ok_response_def sample_cards
      List.map_filter_simps sample_scrape_card)

lemma second_scrape:
  "scrape_listings always_ok (\<lambda>n. n) session_after_one =
     ([sample_listing, sample_listing], session_after_two)"
  by (simp add: scrape_listings_def second_fetch ok_response_def sample_cards
      List.map_filter_simps sample_scrape_card)

lemma sample_cycle:
  "check_for_new_listings always_ok (\<lambda>n. n) (\<lambda>i. 10 + i) new_tracker =
     ([sample_listing], tracker_after_one)"
  by (simp add: check_for_new_listings_def new_tracker_def sample_scrape is_new_listing_def
      save_listing_def tracker_after_one_def)

lemma second_cycle:
  "check_for_new_listings always_ok (\<lambda>n. n) (\<lambda>i. 20 + i) tracker_after_one =
     ([], tracker_after_two)"
  by (simp add: check_for_new_listings_def tracker_after_one_def second_scrape
      is_new_listing_def save_listing_def tracker_after_two_def)

lemma forbidden_cycle:
  "check_for_new_listings always_forbidden (\<lambda>n. n) (\<lambda>i. 10 + i) new_tracker =
     ([], \<lparr>session = rotated_session, apartments = Map.empty\<rparr>)"
  by (simp add: check_for_new_listings_def scrape_listings_def new_tracker_def forbidden_fetch)

lemma sample_md5:
  "md5_hex ''120 East 5th Street 3A_120 East 5th Street_$2,500'' =
     ''9d4ef853b203897f1c0491ad4ff9c948''"
  by code_simp

lemma bare_address: "extract_address ''Park place'' = ''N/A''"
  by code_simp

lemma bare_link: "extract_link ([bare_page], bare_card) = Some ([bare_card, bare_page], Tag ''a'' [(''href'', ''/rental/x1'')] [Tag ''img'' [(''alt'', ''Park place'')] []])"
  by code_simp

lemma bare_url: "full_url_of ([bare_card, bare_page], Tag ''a'' [(''href'', ''/rental/x1'')] [Tag ''img'' [(''alt'', ''Park place'')] []]) = ''https://streeteasy.com/rental/x1''"
  by code_simp

lemma bare_title: "extract_title ([bare_page], bare_card) = ''Park place''"
  by code_simp

lemma bare_price: "extract_price ([bare_page], bare_card) = ''N/A''"
  by code_simp

lemma bare_beds: "extract_beds_baths_sqft ([bare_page], bare_card) = (''N/A'', ''N/A'', ''N/A'')"
  by code_simp

lemma bare_image_url: "extract_image_url ([bare_page], bare_card) = None"
  by code_simp

lemma bare_scrape_card: "scrape_card ([bare_page], bare_card) = Some bare_listing"
  by (simp add: scrape_card_def bare_link bare_url bare_title bare_price
      bare_address bare_beds bare_image_url bare_listing_def NA_def Let_def)

lemma other_link: "extract_link ([], other_card) = Some ([other_card], Tag ''a'' [(''href'', ''https://streeteasy.com/building/z9''), (''class'', ''ImageContainer-module__listingLink___sYIL9'')] [])"
  by code_simp

lemma other_url: "full_url_of ([other_card], Tag ''a'' [(''href'', ''https://streeteasy.com/building/z9''), (''class'', ''ImageContainer-module__listingLink___sYIL9'')] []) = ''https://streeteasy.com/building/z9''"
  by code_simp

lemma other_title: "extract_title ([], other_card) = ''120 East 5th Street 3A''"
  by code_simp

lemma other_price: "extract_price ([], other_card) = ''$2,500''"
  by code_simp

lemma other_beds: "extract_beds_baths_sqft ([], other_card) = (''N/A'', ''N/A'', ''N/A'')"
  by code_simp

lemma other_image_url: "extract_image_url ([], other_card) = None"
  by code_simp

lemma other_scrape_card: "scrape_card ([], other_card) = Some other_listing"
  by (simp add: scrape_card_def other_link other_url other_title other_price
      sample_address other_beds other_image_url other_listing_def NA_def Let_def)

lemma unpriced_link: "extract_link ([], unpriced_card) = Some ([unpriced_card], Tag ''a'' [(''href'', ''/rental/abc123'')] [Tag ''img'' [(''alt'', ''120 East 5th Street 3A'')] []])"
  by code_simp

lemma unpriced_url: "full_url_of ([unpriced_card], Tag ''a'' [(''href'', ''/rental/abc123'')] [Tag ''img'' [(''alt'', ''120 East 5th Street 3A'')] []]) = ''https://streeteasy.com/rental/abc123''"
  by code_simp

lemma unpriced_title: "extract_title ([], unpriced_card) = ''120 East 5th Street 3A''"
  by code_simp

lemma unpriced_price: "extract_price ([], unpriced_card) = ''N/A''"
  by code_simp

lemma unpriced_beds: "extract_beds_baths_sqft ([], unpriced_card) = (''N/A'', ''N/A'', ''N/A'')"
  by code_simp

lemma unpriced_image_url: "extract_image_url ([], unpriced_card) = None"
  by code_simp

lemma unpriced_scrape_card: "scrape_card ([], unpriced_card) = Some unpriced_listing"
  by (simp add: scrape_card_def unpriced_link unpriced_url unpriced_title unpriced_price
      sample_address unpriced_beds unpriced_image_url unpriced_listing_def NA_def Let_def)

lemma linkless_link: "extract_link ([], linkless_card) = None"
  by code_simp

lemma linkless_title: "extract_title ([], linkless_card) = ''9 Ocean Road B''"
  by code_simp

lemma sample_price_elem:
  "first_selected ([sample_page], sample_card) price_selectors =
     Some ([sample_card, sample_page],
           Tag ''span'' [(''class'', ''price'')] [NavigableString ''Base: $2,500''])"
  by code_simp

lemma sample_price_match:
  "re_search_price (get_text_strip ([sample_card, sample_page],
      Tag ''span'' [(''class'', ''price'')] [NavigableString ''Base: $2,500''])) = Some ''$2,500''"
  by code_simp

lemma unpriced_price_elem:
  "first_selected ([], unpriced_card) price_selectors =
     Some ([unpriced_card],
           Tag ''span'' [(''class'', ''price'')] [NavigableString ''Call for rent''])"
  by code_simp

lemma unpriced_price_match:
  "re_search_price (get_text_strip ([unpriced_card],
      Tag ''span'' [(''class'', ''price'')] [NavigableString ''Call for rent''])) = None"
  by code_simp

lemma unpriced_trimmed:
  "py_strip (split_first ''rent'' (split_first ''net'' (split_first ''base''
     (get_text_strip ([unpriced_card],
        Tag ''span'' [(''class'', ''price'')] [NavigableString ''Call for rent''])))))
   = ''Call for''"
  by code_simp

lemma bare_fetch:
  "fst (get_page_with_retry always_bare (\<lambda>n. n) 3 new_session) =
     Inr \<lparr>status_code = 200, content = bare_page\<rparr>"
  by code_simp

lemma bare_cards:
  "select ([], content \<lparr>status_code = 200, content = bare_page\<rparr>) listing_card_sel =
     [([bare_page], bare_card)]"
  by code_simp

lemma bare_no_price: "first_selected ([bare_page], bare_card) price_selectors = None"
  by code_simp

lemma bare_no_beds: "select_one ([bare_page], bare_card) beds_baths_sel = None"
  by code_simp

lemma sample_title_tokens:
  "list_ex (\<lambda>word. py_in word (py_lower ''120 East 5th Street 3A'')) street_words
   \<and> py_join '' '' [''120'', ''East'', ''5th'', ''Street'', ''3A''] = ''120 East 5th Street 3A''
   \<and> py_join '' '' (butlast [''120'', ''East'', ''5th'', ''Street'', ''3A'']) = ''120 East 5th Street''
   \<and> py_split ''120 East 5th Street 3A'' = [''120'', ''East'', ''5th'', ''Street'', ''3A'']"
  by code_simp

lemma bare_title_tokens:
  "py_in ''place'' ''Park place''
   \<and> py_join '' '' (butlast (py_split ''Park place'')) = ''Park''"
  by code_simp

lemma hrefless_link:
  "extract_link ([hrefless_page], hrefless_card) =
     Some ([hrefless_card, hrefless_page],
       Tag ''a'' [(''class'', ''ImageContainer-module__listingLink___sYIL9'')]
         [Tag ''img'' [(''alt'', ''120 East 5th Street 3A'')] []])"
  by code_simp

lemma hrefless_href:
  "get ([hrefless_card, hrefless_page],
       Tag ''a'' [(''class'', ''ImageContainer-module__listingLink___sYIL9'')]
         [Tag ''img'' [(''alt'', ''120 East 5th Street 3A'')] []]) ''href'' = None"
  by code_simp

lemma hrefless_url:
  "full_url_of ([hrefless_card, hrefless_page],
       Tag ''a'' [(''class'', ''ImageContainer-module__listingLink___sYIL9'')]
         [Tag ''img'' [(''alt'', ''120 East 5th Street 3A'')] []]) = ''https://streeteasy.com''"
  by code_simp

lemma hrefless_title:
  "extract_title ([hrefless_page], hrefless_card) = ''120 East 5th Street 3A''"
  by code_simp

lemma hrefless_fetch:
  "fst (get_page_with_retry always_hrefless (\<lambda>n. n) 3 new_session) =
     Inr \<lparr>status_code = 200, content = hrefless_page\<rparr>"
  by code_simp

lemma hrefless_cards:
  "select ([], content \<lparr>status_code = 200, content = hrefless_page\<rparr>) listing_card_sel =
     [([hrefless_page], hrefless_card)]"
  by code_simp

lemma blank_title_link:
  "extract_link ([], blank_title_card) =
     Some ([blank_title_card],
       Tag ''a'' [(''href'', ''/rental/abc123'')] [Tag ''img'' [(''alt'', ''image 1 of 3'')] []])"
  by code_simp

lemma blank_title_title: "extract_title ([], blank_title_card) = []"
  by code_simp

lemma internet_link:
  "extract_link ([], internet_card) =
     Some ([internet_card],
       Tag ''a'' [(''href'', ''/rental/abc123'')]
         [Tag ''img'' [(''alt'', ''120 East 5th Street 3A'')] []])"
  by code_simp

lemma internet_title: "extract_title ([], internet_card) = ''120 East 5th Street 3A''"
  by code_simp

lemma internet_price: "extract_price ([], internet_card) = ''$ inter''"
  by code_simp

lemma internet_price_elem:
  "first_selected ([], internet_card) price_selectors =
     Some ([internet_card],
           Tag ''span'' [(''class'', ''price'')] [NavigableString ''$ internet incl.''])"
  by code_simp

lemma internet_price_text:
  "get_text_strip ([internet_card],
      Tag ''span'' [(''class'', ''price'')] [NavigableString ''$ internet incl.'']) =
     ''$ internet incl.''"
  by code_simp

lemma internet_no_match: "re_search_price ''$ internet incl.'' = None"
  by code_simp

lemma internet_cuts:
  "cut_before ''base'' ''$ internet incl.'' ''$ internet incl.''
   \<and> cut_before ''net'' ''$ internet incl.'' ''$ inter''
   \<and> cut_before ''rent'' ''$ inter'' ''$ inter''
   \<and> py_strip ''$ inter'' = ''$ inter''
   \<and> startswith ''$ inter'' ''$''"
  by code_simp

lemma internet_spec_trim:
  "spec_trim_qualifiers ''$ internet incl.'' = ''$ internet incl.''
   \<and> startswith ''$ internet incl.'' ''$''"
  by code_simp

lemma unpriced_price_text:
  "get_text_strip ([unpriced_card],
      Tag ''span'' [(''class'', ''price'')] [NavigableString ''Call for rent'']) =
     ''Call for rent''"
  by code_simp

lemma unpriced_cuts:
  "re_search_price ''Call for rent'' = None
   \<and> cut_before ''base'' ''Call for rent'' ''Call for rent''
   \<and> cut_before ''net'' ''Call for rent'' ''Call for rent''
   \<and> cut_before ''rent'' ''Call for rent'' ''Call for ''
   \<and> py_strip ''Call for '' = ''Call for''
   \<and> \<not> startswith ''Call for'' ''$''"
  by code_simp

lemma sample_price_text:
  "get_text_strip ([sample_card, sample_page],
      Tag ''span'' [(''class'', ''price'')] [NavigableString ''Base: $2,500'']) = ''Base: $2,500''"
  by code_simp

lemma sample_price_chars:
  "re_search_price ''Base: $2,500'' = Some ''$2,500''
   \<and> chars ''Base: $2,500'' =
       [''B'', ''a'', ''s'', ''e'', '':'', '' ''] @ [''$''] @ [''2'', '','', ''5'', ''0'', ''0''] @ []"
  by code_simp

lemma nbsp_link:
  "extract_link ([], nbsp_card) =
     Some ([nbsp_card],
       Tag ''a'' [(''href'', ''/rental/pp5'')]
         [Tag ''img'' [(''alt'', ''Park Place'' @ [CHR 0xC2, CHR 0xA0] @ ''5'')] []])"
  by code_simp

lemma nbsp_title:
  "extract_title ([], nbsp_card) = ''Park Place'' @ [CHR 0xC2, CHR 0xA0] @ ''5''"
  by code_simp

lemma nbsp_tokens:
  "list_ex (\<lambda>word. py_in word (py_lower (''Park Place'' @ [CHR 0xC2, CHR 0xA0] @ ''5'')))
     street_words
   \<and> py_split (''Park Place'' @ [CHR 0xC2, CHR 0xA0] @ ''5'') = [''Park'', ''Place'', ''5'']
   \<and> py_join '' '' (butlast [''Park'', ''Place'', ''5'']) = ''Park Place''"
  by code_simp


section \<open>Properties of the tracker\<close>

text \<open>
  C1. The id is a function of the title, the address and the price alone (it takes no
  session, table, clock or random source, so a later run computes the same value): it is
  the MD5 hex digest of \<^verbatim>\<open>title + "_" + address + "_" + price\<close>. Two scraped listings with
  the same three fields have the same id. For the triple of the specification the hashed
  text is \<^verbatim>\<open>120 East 5th Street 3A_120 East 5th Street_$2,500\<close> and the id is
  \<^verbatim>\<open>9d4ef853b203897f1c0491ad4ff9c948\<close>.
\<close>

theorem generate_listing_id_pure:
  "generate_listing_id ttl addr prc = md5_hex (ttl @ ''_'' @ addr @ ''_'' @ prc)
   \<and> (ttl1 = ttl2 \<and> addr1 = addr2 \<and> prc1 = prc2 \<longrightarrow>
        generate_listing_id ttl1 addr1 prc1 = generate_listing_id ttl2 addr2 prc2)
   \<and> (scrape_card crd1 = Some l1 \<and> scrape_card crd2 = Some l2
        \<and> title l1 = title l2 \<and> address l1 = address l2 \<and> price l1 = price l2 \<longrightarrow>
        listing_id l1 = listing_id l2
        \<and> listing_id l1 = md5_hex (title l1 @ ''_'' @ address l1 @ ''_'' @ price l1))
   \<and> generate_listing_id ''120 East 5th Street 3A'' ''120 East 5th Street'' ''$2,500'' =
        md5_hex ''120 East 5th Street 3A_120 East 5th Street_$2,500''
   \<and> md5_hex ''120 East 5th Street 3A_120 East 5th Street_$2,500'' =
        ''9d4ef853b203897f1c0491ad4ff9c948''"
  using scrape_card_id [of crd1 l1] scrape_card_id [of crd2 l2] sample_md5
  by (auto simp: generate_listing_id_def)

theorem generate_listing_id_pure_witness:
  "scrape_card ([sample_page], sample_card) = Some sample_listing
   \<and> scrape_card ([], other_card) = Some other_listing
   \<and> title sample_listing = title other_listing
   \<and> address sample_listing = address other_listing
   \<and> price sample_listing = price other_listing
   \<and> url sample_listing \<noteq> url other_listing
   \<and> listing_id sample_listing = listing_id other_listing
   \<and> listing_id sample_listing = ''9d4ef853b203897f1c0491ad4ff9c948''"
proof -
  have same: "title sample_listing = title other_listing"
    "address sample_listing = address other_listing"
    "price sample_listing = price other_listing"
    and diff: "url sample_listing \<noteq> url other_listing"
    and t: "title sample_listing @ ''_'' @ address sample_listing @ ''_'' @ price sample_listing
      = ''120 East 5th Street 3A_120 East 5th Street_$2,500''"
    by (simp_all add: sample_listing_def other_listing_def)
  from generate_listing_id_pure [of _ _ _ _ _ _ _ _ _ "([sample_page], sample_card)"
      sample_listing "([], other_card)" other_listing]
    sample_scrape_card other_scrape_card same
  have "listing_id sample_listing = listing_id other_listing"
    and "listing_id sample_listing =
      md5_hex (title sample_listing @ ''_'' @ address sample_listing @ ''_'' @ price sample_listing)"
    and "md5_hex ''120 East 5th Street 3A_120 East 5th Street_$2,500'' =
        ''9d4ef853b203897f1c0491ad4ff9c948''"
    by blast+
  then show ?thesis
    unfolding t using sample_scrape_card other_scrape_card same diff by simp
qed

text \<open>
  C2. Two cycles in a row, the second starting from the tracker as the first left it,
  both fetching a page with the same content: the second hands no listing to the notifier
  and leaves the table as it was.
\<close>

theorem second_cycle_finds_nothing:
  assumes f1: "fst (get_page_with_retry net1 rnd1 3 (session tr)) = Inr resp1"
    and c1: "check_for_new_listings net1 rnd1 clock1 tr = (new1, tr1)"
    and f2: "fst (get_page_with_retry net2 rnd2 3 (session tr1)) = Inr resp2"
    and same: "content resp2 = content resp1"
    and c2: "check_for_new_listings net2 rnd2 clock2 tr1 = (new2, tr2)"
  shows "new2 = [] \<and> apartments tr2 = apartments tr1"
proof -
  let ?ls = "List.map_filter scrape_card (select ([], content resp1) listing_card_sel)"
  have l1: "fst (scrape_listings net1 rnd1 (session tr)) = ?ls"
    using f1 by (rule scrape_listings_ok)
  have l2: "fst (scrape_listings net2 rnd2 (session tr1)) = ?ls"
    using scrape_listings_ok [OF f2] same by simp
  have "apartments tr1 = snd (new_listings_loop clock1 0 ?ls [] (apartments tr))"
    using check_for_new_listings_result [of net1 rnd1 clock1 tr] c1 l1 by simp
  then have "dom (apartments tr1) = dom (apartments tr) \<union> listing_id ` set ?ls"
    by (simp only: loop_dom)
  then have "listing_id ` set ?ls \<subseteq> dom (apartments tr1)" by simp
  then have "new_listings_loop clock2 0 ?ls [] (apartments tr1) = ([], apartments tr1)"
    by (rule new_listings_loop_known)
  with check_for_new_listings_result [of net2 rnd2 clock2 tr1] c2 l2
  show ?thesis by simp
qed

theorem second_cycle_finds_nothing_witness:
  "fst (get_page_with_retry always_ok (\<lambda>n. n) 3 (session new_tracker)) = Inr ok_response
   \<and> check_for_new_listings always_ok (\<lambda>n. n) (\<lambda>i. 10 + i) new_tracker =
       ([sample_listing], tracker_after_one)
   \<and> fst (get_page_with_retry always_ok (\<lambda>n. n) 3 (session tracker_after_one)) = Inr ok_response
   \<and> content ok_response = content ok_response
   \<and> check_for_new_listings always_ok (\<lambda>n. n) (\<lambda>i. 20 + i) tracker_after_one =
       ([], tracker_after_two)
   \<and> apartments tracker_after_two = apartments tracker_after_one"
proof -
  have f1: "fst (get_page_with_retry always_ok (\<lambda>n. n) 3 (session new_tracker)) = Inr ok_response"
    by (simp add: new_tracker_def sample_fetch)
  have f2: "fst (get_page_with_retry always_ok (\<lambda>n. n) 3 (session tracker_after_one)) =
      Inr ok_response"
    by (simp add: tracker_after_one_def second_fetch)
  from second_cycle_finds_nothing [OF f1 sample_cycle f2 refl second_cycle]
  show ?thesis using f1 f2 sample_cycle second_cycle by simp
qed

text \<open>
  C3 does not hold of the code. The loop body ends with the test
  \<^verbatim>\<open>title == 'N/A' or not full_url\<close>, but at that point the url is never empty, since the
  origin has been put before a link that does not start with \<^verbatim>\<open>http\<close>: a card whose link
  has no \<^verbatim>\<open>href\<close> is returned by \<^verbatim>\<open>scrape_listings\<close> with the bare origin as its url. And
  the test on the title knows the sentinel only: a card whose image has the alt text
  \<^verbatim>\<open>image 1 of 3\<close> gets the text before \<^verbatim>\<open>image\<close> as its title, which is empty, and is
  appended with that title.
\<close>

theorem listing_without_url_or_title_emitted:
  "full_url_of link_elem \<noteq> []
   \<and> extract_link ([hrefless_page], hrefless_card) =
       Some ([hrefless_card, hrefless_page],
         Tag ''a'' [(''class'', ''ImageContainer-module__listingLink___sYIL9'')]
           [Tag ''img'' [(''alt'', ''120 East 5th Street 3A'')] []])
   \<and> get ([hrefless_card, hrefless_page],
         Tag ''a'' [(''class'', ''ImageContainer-module__listingLink___sYIL9'')]
           [Tag ''img'' [(''alt'', ''120 East 5th Street 3A'')] []]) ''href'' = None
   \<and> map_option url (scrape_card ([hrefless_page], hrefless_card)) =
       Some ''https://streeteasy.com''
   \<and> map url (fst (scrape_listings always_hrefless (\<lambda>n. n) new_session)) =
       [''https://streeteasy.com'']
   \<and> map_option title (scrape_card ([], blank_title_card)) = Some []"
proof -
  have t: "extract_title ([hrefless_page], hrefless_card) \<noteq> NA"
    by (simp add: hrefless_title NA_def)
  have u: "map_option url (scrape_card ([hrefless_page], hrefless_card)) =
       Some ''https://streeteasy.com''"
    using scrape_card_fields(1) [OF hrefless_link t] by (simp add: hrefless_url)
  have "fst (scrape_listings always_hrefless (\<lambda>n. n) new_session) =
      List.map_filter scrape_card [([hrefless_page], hrefless_card)]"
    using scrape_listings_ok [OF hrefless_fetch] by (simp only: hrefless_cards)
  then have p: "map url (fst (scrape_listings always_hrefless (\<lambda>n. n) new_session)) =
       [''https://streeteasy.com'']"
    using u by (cases "scrape_card ([hrefless_page], hrefless_card)")
      (simp_all add: List.map_filter_simps)
  have b: "extract_title ([], blank_title_card) \<noteq> NA"
    by (simp add: blank_title_title NA_def)
  have e: "map_option title (scrape_card ([], blank_title_card)) = Some []"
    using scrape_card_fields(2) [OF blank_title_link b] by (simp add: blank_title_title)
  show ?thesis
    using full_url_of_nonempty hrefless_link hrefless_href u p e by (intro conjI)
qed

text \<open>
  C4, as stated, fails on a title of two words: the card \<open>bare_card\<close> gives a listing with
  the title \<^verbatim>\<open>Park place\<close>, which contains \<^verbatim>\<open>place\<close>; the title without its last word is
  \<^verbatim>\<open>Park\<close>, but the address is \<^verbatim>\<open>N/A\<close>, because of the test
  \<^verbatim>\<open>len(address_parts) >= 3\<close>.
\<close>

theorem address_drops_last_token_counterexample:
  "map_option title (scrape_card ([bare_page], bare_card)) = Some ''Park place''
   \<and> py_in ''place'' ''Park place''
   \<and> py_join '' '' (butlast (py_split ''Park place'')) = ''Park''
   \<and> map_option address (scrape_card ([bare_page], bare_card)) = Some ''N/A''"
  using bare_title_tokens by (simp add: bare_scrape_card bare_listing_def)

text \<open>
  C4, amended. For every listing given by a card: when the lower-cased title contains one
  of \<^verbatim>\<open>street\<close>, \<^verbatim>\<open>avenue\<close>, \<^verbatim>\<open>road\<close>, \<^verbatim>\<open>place\<close>, \<^verbatim>\<open>drive\<close> and the title has at
  least three whitespace-delimited words, the address is these words without the last
  one, joined by single spaces; in every other case the address is \<^verbatim>\<open>N/A\<close>. In
  particular, for a title made of at least three words joined by single spaces, the
  address is the title without its last word.
\<close>

theorem address_of_listing:
  assumes "scrape_card crd = Some l"
  shows "address l =
       (if list_ex (\<lambda>word. py_in word (py_lower (title l))) street_words
           \<and> 3 \<le> length (py_split (title l))
        then py_join '' '' (butlast (py_split (title l))) else NA)
     \<and> (\<forall>ws. title l = py_join '' '' ws
            \<and> (\<forall>w \<in> set ws. w \<noteq> [] \<and> \<not> continuation (hd w)
                  \<and> (\<forall>ch \<in> set (chars w). \<not> py_isspace ch))
            \<and> 3 \<le> length ws
            \<and> list_ex (\<lambda>word. py_in word (py_lower (title l))) street_words
          \<longrightarrow> address l = py_join '' '' (butlast ws))"
proof -
  from assms have "title l \<noteq> NA \<and> address l = extract_address (title l)"
    by (rule scrape_card_SomeD) simp
  then have t: "title l \<noteq> NA" and a: "address l = extract_address (title l)"
    by simp_all
  have first: "address l =
       (if list_ex (\<lambda>word. py_in word (py_lower (title l))) street_words
           \<and> 3 \<le> length (py_split (title l))
        then py_join '' '' (butlast (py_split (title l))) else NA)"
    using t a by (simp add: extract_address_def Let_def)
  have "address l = py_join '' '' (butlast ws)"
    if "title l = py_join '' '' ws"
      and "\<forall>w \<in> set ws. w \<noteq> [] \<and> \<not> continuation (hd w)
                  \<and> (\<forall>ch \<in> set (chars w). \<not> py_isspace ch)"
      and "3 \<le> length ws"
      and "list_ex (\<lambda>word. py_in word (py_lower (title l))) street_words" for ws
  proof -
    from that(1,2) have "py_split (title l) = ws" by (simp add: py_split_join)
    with first that(3,4) show ?thesis by simp
  qed
  with first show ?thesis by blast
qed

theorem address_of_listing_witness:
  "scrape_card ([sample_page], sample_card) = Some sample_listing
   \<and> title sample_listing = py_join '' '' [''120'', ''East'', ''5th'', ''Street'', ''3A'']
   \<and> address sample_listing = py_join '' '' (butlast [''120'', ''East'', ''5th'', ''Street'', ''3A''])
   \<and> address sample_listing = ''120 East 5th Street''
   \<and> scrape_card ([bare_page], bare_card) = Some bare_listing
   \<and> address bare_listing = NA
   \<and> map_option title (scrape_card ([], nbsp_card)) =
       Some (''Park Place'' @ [CHR 0xC2, CHR 0xA0] @ ''5'')
   \<and> map_option address (scrape_card ([], nbsp_card)) = Some ''Park Place''"
proof -
  have t: "title sample_listing = ''120 East 5th Street 3A''"
    and a: "address sample_listing = ''120 East 5th Street''"
    by (simp_all add: sample_listing_def)
  have b: "address bare_listing = NA" by (simp add: bare_listing_def NA_def)
  from address_of_listing [OF sample_scrape_card]
  have "address sample_listing =
       (if list_ex (\<lambda>word. py_in word (py_lower (title sample_listing))) street_words
           \<and> 3 \<le> length (py_split (title sample_listing))
        then py_join '' '' (butlast (py_split (title sample_listing))) else NA)"
    by blast
  then have s: "address sample_listing =
      py_join '' '' (butlast [''120'', ''East'', ''5th'', ''Street'', ''3A''])"
    unfolding t using sample_title_tokens by simp
  have n: "extract_title ([], nbsp_card) \<noteq> NA"
    unfolding nbsp_title by (simp add: NA_def)
  obtain l where l: "scrape_card ([], nbsp_card) = Some l"
    using scrape_card_emitted [OF nbsp_link n] by blast
  with scrape_card_fields(2) [OF nbsp_link n]
  have tl: "title l = ''Park Place'' @ [CHR 0xC2, CHR 0xA0] @ ''5''"
    by (simp add: nbsp_title)
  from address_of_listing [OF l]
  have "address l =
       (if list_ex (\<lambda>word. py_in word (py_lower (title l))) street_words
           \<and> 3 \<le> length (py_split (title l))
        then py_join '' '' (butlast (py_split (title l))) else NA)"
    by blast
  then have "address l = ''Park Place''"
    unfolding tl using nbsp_tokens by simp
  with l tl have nb: "map_option title (scrape_card ([], nbsp_card)) =
       Some (''Park Place'' @ [CHR 0xC2, CHR 0xA0] @ ''5'')"
    "map_option address (scrape_card ([], nbsp_card)) = Some ''Park Place''"
    by simp_all
  have "title sample_listing = py_join '' '' [''120'', ''East'', ''5th'', ''Street'', ''3A'']"
    unfolding t using sample_title_tokens by simp
  with address_of_listing [OF bare_scrape_card] sample_scrape_card bare_scrape_card s a b nb
  show ?thesis by (intro conjI)
qed

text \<open>
  C5, as stated, fails on what is done without a match. The card \<open>internet_card\<close> has the
  price text \<^verbatim>\<open>$ internet incl.\<close>, which the pattern does not match and which ends with
  no qualifier word, so that trimming trailing qualifier words leaves it as it is, with its
  dollar sign in front; but the price of the listing is \<^verbatim>\<open>$ inter\<close>: the code cuts the text
  where \<^verbatim>\<open>net\<close> first occurs, inside a word.
\<close>

theorem price_trailing_words_counterexample:
  "map_option get_text_strip (first_selected ([], internet_card) price_selectors) =
     Some ''$ internet incl.''
   \<and> re_search_price ''$ internet incl.'' = None
   \<and> spec_trim_qualifiers ''$ internet incl.'' = ''$ internet incl.''
   \<and> startswith ''$ internet incl.'' ''$''
   \<and> map_option price (scrape_card ([], internet_card)) = Some ''$ inter''"
proof -
  have t: "extract_title ([], internet_card) \<noteq> NA"
    by (simp add: internet_title NA_def)
  have "map_option price (scrape_card ([], internet_card)) = Some ''$ inter''"
    using scrape_card_fields(3) [OF internet_link t] by (simp add: internet_price)
  moreover have "map_option get_text_strip (first_selected ([], internet_card) price_selectors) =
     Some ''$ internet incl.''"
    by (simp add: internet_price_elem internet_price_text)
  ultimately show ?thesis using internet_no_match internet_spec_trim by simp
qed

text \<open>
  C5, amended. For a listing given by a card in which the price selectors find an element,
  with \<open>raw_price\<close> the stripped text of the first element found. When the pattern
  matches, the price is the match: the leftmost dollar sign that is followed by a digit or
  a comma, together with the whole run of digits and commas after it; and the pattern
  matches exactly when the text has a dollar sign followed by a digit or a comma. When it
  does not match, the text is cut before the first occurrence of \<^verbatim>\<open>base\<close>, the result
  before the first occurrence of \<^verbatim>\<open>net\<close>, and that before the first occurrence of
  \<^verbatim>\<open>rent\<close> (wherever they occur, also inside a word), and then stripped; the price is what
  is left when it starts with a dollar sign, and \<^verbatim>\<open>N/A\<close> otherwise.
\<close>

theorem price_of_price_element:
  assumes "scrape_card crd = Some l"
    and "first_selected crd price_selectors = Some price_elem"
  shows "(let raw_price = get_text_strip price_elem
          in (\<forall>tok. re_search_price raw_price = Some tok \<longrightarrow>
                 price l = tok
               \<and> (\<exists>pre ds post. chars raw_price = pre @ [''$''] @ ds @ post
                     \<and> tok = concat (''$'' # ds) \<and> ds \<noteq> []
                     \<and> (\<forall>c \<in> set ds. digit_or_comma c)
                     \<and> (post = [] \<or> \<not> digit_or_comma (hd post))
                     \<and> \<not> (\<exists>a d b. pre = a @ [''$'', d] @ b \<and> digit_or_comma d)))
           \<and> (re_search_price raw_price = None \<longleftrightarrow>
                 \<not> (\<exists>pre d post. chars raw_price = pre @ [''$'', d] @ post \<and> digit_or_comma d))
           \<and> (re_search_price raw_price = None \<longrightarrow>
                 (\<exists>b n r. cut_before ''base'' raw_price b \<and> cut_before ''net'' b n
                      \<and> cut_before ''rent'' n r)
               \<and> (\<forall>b n r. cut_before ''base'' raw_price b \<and> cut_before ''net'' b n
                      \<and> cut_before ''rent'' n r \<longrightarrow>
                      price l = (if startswith (py_strip r) ''$'' then py_strip r else NA))))"
proof -
  let ?raw = "get_text_strip price_elem"
  let ?b = "split_first ''base'' ?raw"
  let ?n = "split_first ''net'' ?b"
  let ?r = "split_first ''rent'' ?n"
  from assms(1) have "price l = extract_price crd" by (rule scrape_card_SomeD) simp
  with assms(2) have p: "price l = clean_price ?raw" by (simp add: extract_price_def)
  have c1: "\<forall>tok. re_search_price ?raw = Some tok \<longrightarrow>
                 price l = tok
               \<and> (\<exists>pre ds post. chars ?raw = pre @ [''$''] @ ds @ post
                     \<and> tok = concat (''$'' # ds) \<and> ds \<noteq> []
                     \<and> (\<forall>c \<in> set ds. digit_or_comma c)
                     \<and> (post = [] \<or> \<not> digit_or_comma (hd post))
                     \<and> \<not> (\<exists>a d b. pre = a @ [''$'', d] @ b \<and> digit_or_comma d))"
  proof (intro allI impI)
    fix tok assume m: "re_search_price ?raw = Some tok"
    then have "price l = tok" using p by (simp add: clean_price_def)
    moreover from m have "search_price (chars ?raw) = Some tok"
      by (simp add: re_search_price_def)
    from search_price_Some [OF this]
    have "\<exists>pre ds post. chars ?raw = pre @ [''$''] @ ds @ post
                     \<and> tok = concat (''$'' # ds) \<and> ds \<noteq> []
                     \<and> (\<forall>c \<in> set ds. digit_or_comma c)
                     \<and> (post = [] \<or> \<not> digit_or_comma (hd post))
                     \<and> \<not> (\<exists>a d b. pre = a @ [''$'', d] @ b \<and> digit_or_comma d)"
      unfolding search_price_None .
    ultimately show "price l = tok
               \<and> (\<exists>pre ds post. chars ?raw = pre @ [''$''] @ ds @ post
                     \<and> tok = concat (''$'' # ds) \<and> ds \<noteq> []
                     \<and> (\<forall>c \<in> set ds. digit_or_comma c)
                     \<and> (post = [] \<or> \<not> digit_or_comma (hd post))
                     \<and> \<not> (\<exists>a d b. pre = a @ [''$'', d] @ b \<and> digit_or_comma d))"
      by (rule conjI)
  qed
  have c2: "re_search_price ?raw = None \<longleftrightarrow>
       \<not> (\<exists>pre d post. chars ?raw = pre @ [''$'', d] @ post \<and> digit_or_comma d)"
    unfolding re_search_price_def by (rule search_price_None)
  have cuts: "cut_before ''base'' ?raw ?b" "cut_before ''net'' ?b ?n" "cut_before ''rent'' ?n ?r"
    by (rule split_first_cut, simp)+
  have c3: "re_search_price ?raw = None \<longrightarrow>
      price l = (if startswith (py_strip ?r) ''$'' then py_strip ?r else NA)"
    using p by (simp add: clean_price_def Let_def)
  have c4: "price l = (if startswith (py_strip r) ''$'' then py_strip r else NA)"
    if "re_search_price ?raw = None" and "cut_before ''base'' ?raw b"
      and "cut_before ''net'' b n" and "cut_before ''rent'' n r" for b n r
  proof -
    have "b = ?b" using that(2) cuts(1) by (intro cut_before_unique [of "''base''"]) simp_all
    with that(3) cuts(2) have "n = ?n"
      by (intro cut_before_unique [of "''net''"]) simp_all
    with that(4) cuts(3) have "r = ?r"
      by (intro cut_before_unique [of "''rent''"]) simp_all
    with c3 that(1) show ?thesis by simp
  qed
  have c5: "re_search_price ?raw = None \<longrightarrow>
                 (\<exists>b n r. cut_before ''base'' ?raw b \<and> cut_before ''net'' b n
                      \<and> cut_before ''rent'' n r)
               \<and> (\<forall>b n r. cut_before ''base'' ?raw b \<and> cut_before ''net'' b n
                      \<and> cut_before ''rent'' n r \<longrightarrow>
                      price l = (if startswith (py_strip r) ''$'' then py_strip r else NA))"
    using cuts c4 by blast
  show ?thesis unfolding Let_def using c1 c2 c5 by (intro conjI)
qed

theorem price_of_price_element_witness:
  "scrape_card ([sample_page], sample_card) = Some sample_listing
   \<and> first_selected ([sample_page], sample_card) price_selectors =
       Some ([sample_card, sample_page],
             Tag ''span'' [(''class'', ''price'')] [NavigableString ''Base: $2,500''])
   \<and> re_search_price ''Base: $2,500'' = Some ''$2,500''
   \<and> price sample_listing = ''$2,500''
   \<and> scrape_card ([], unpriced_card) = Some unpriced_listing
   \<and> first_selected ([], unpriced_card) price_selectors =
       Some ([unpriced_card],
             Tag ''span'' [(''class'', ''price'')] [NavigableString ''Call for rent''])
   \<and> re_search_price ''Call for rent'' = None
   \<and> cut_before ''base'' ''Call for rent'' ''Call for rent''
   \<and> cut_before ''net'' ''Call for rent'' ''Call for rent''
   \<and> cut_before ''rent'' ''Call for rent'' ''Call for ''
   \<and> price unpriced_listing = NA"
proof -
  from price_of_price_element [OF sample_scrape_card sample_price_elem]
  have "\<forall>tok. re_search_price ''Base: $2,500'' = Some tok \<longrightarrow> price sample_listing = tok"
    unfolding Let_def sample_price_text by blast
  with sample_price_chars have p1: "price sample_listing = ''$2,500''" by blast
  from price_of_price_element [OF unpriced_scrape_card unpriced_price_elem]
  have "re_search_price ''Call for rent'' = None \<longrightarrow>
      (\<forall>b n r. cut_before ''base'' ''Call for rent'' b \<and> cut_before ''net'' b n
          \<and> cut_before ''rent'' n r \<longrightarrow>
          price unpriced_listing = (if startswith (py_strip r) ''$'' then py_strip r else NA))"
    unfolding Let_def unpriced_price_text by blast
  with unpriced_cuts have "price unpriced_listing =
      (if startswith (py_strip ''Call for '') ''$'' then py_strip ''Call for '' else NA)"
    by blast
  with unpriced_cuts have p2: "price unpriced_listing = NA" by simp
  show ?thesis
    using sample_scrape_card sample_price_elem sample_price_chars p1 unpriced_scrape_card
      unpriced_price_elem unpriced_cuts p2
    by simp
qed

text \<open>
  C6. A card with a link element and a title, in which no price selector finds an element
  and in which the beds-and-baths container is absent or has no item with \<^verbatim>\<open>bed\<close>,
  \<^verbatim>\<open>bath\<close> or the area marker, gives a listing, with that title and the url of that link,
  whose price, bedrooms, bathrooms and sqft are all \<^verbatim>\<open>N/A\<close>.
\<close>

theorem card_with_title_and_url_only:
  assumes "extract_link crd = Some link_elem"
    and "extract_title crd \<noteq> NA"
    and "first_selected crd price_selectors = None"
    and "select_one crd beds_baths_sel = None
       \<or> (\<exists>container. select_one crd beds_baths_sel = Some container
            \<and> (\<forall>item \<in> set (select container beds_text_sel).
                  \<not> py_in ''bed'' (py_lower (get_text_strip item))
                \<and> \<not> py_in ''bath'' (py_lower (get_text_strip item))
                \<and> \<not> py_in sqft_marker (py_lower (get_text_strip item))))"
  shows "\<exists>l. scrape_card crd = Some l
     \<and> title l = extract_title crd \<and> url l = full_url_of link_elem
     \<and> price l = NA \<and> bedrooms l = NA \<and> bathrooms l = NA \<and> sqft l = NA
     \<and> (\<forall>net rnd sess resp.
          fst (get_page_with_retry net rnd 3 sess) = Inr resp
          \<and> crd \<in> set (select ([], content resp) listing_card_sel) \<longrightarrow>
          l \<in> set (fst (scrape_listings net rnd sess)))"
proof -
  have price: "extract_price crd = NA"
    using assms(3) by (simp add: extract_price_def)
  have beds: "extract_beds_baths_sqft crd = (NA, NA, NA)"
    using assms(4)
  proof
    assume "select_one crd beds_baths_sel = None"
    then show ?thesis by (simp add: extract_beds_baths_sqft_def)
  next
    assume "\<exists>container. select_one crd beds_baths_sel = Some container
            \<and> (\<forall>item \<in> set (select container beds_text_sel).
                  \<not> py_in ''bed'' (py_lower (get_text_strip item))
                \<and> \<not> py_in ''bath'' (py_lower (get_text_strip item))
                \<and> \<not> py_in sqft_marker (py_lower (get_text_strip item)))"
    then obtain container where c: "select_one crd beds_baths_sel = Some container"
      and "\<forall>item \<in> set (select container beds_text_sel).
                  \<not> py_in ''bed'' (py_lower (get_text_strip item))
                \<and> \<not> py_in ''bath'' (py_lower (get_text_strip item))
                \<and> \<not> py_in sqft_marker (py_lower (get_text_strip item))"
      by blast
    from classify_none [OF this(2)] c show ?thesis
      by (simp add: extract_beds_baths_sqft_def)
  qed
  obtain l where l: "scrape_card crd = Some l"
    using scrape_card_emitted [OF assms(1,2)] by blast
  then have "title l = extract_title crd \<and> url l = full_url_of link_elem
     \<and> price l = NA \<and> bedrooms l = NA \<and> bathrooms l = NA \<and> sqft l = NA"
    unfolding scrape_card_emitted [OF assms(1,2)] using price beds by auto
  moreover have "\<forall>net rnd sess resp.
          fst (get_page_with_retry net rnd 3 sess) = Inr resp
          \<and> crd \<in> set (select ([], content resp) listing_card_sel) \<longrightarrow>
          l \<in> set (fst (scrape_listings net rnd sess))"
    using scrape_listings_emits l by blast
  ultimately show ?thesis using l by blast
qed

theorem card_with_title_and_url_only_witness:
  "extract_link ([bare_page], bare_card) =
     Some ([bare_card, bare_page], Tag ''a'' [(''href'', ''/rental/x1'')]
        [Tag ''img'' [(''alt'', ''Park place'')] []])
   \<and> extract_title ([bare_page], bare_card) \<noteq> NA
   \<and> first_selected ([bare_page], bare_card) price_selectors = None
   \<and> select_one ([bare_page], bare_card) beds_baths_sel = None
   \<and> scrape_card ([bare_page], bare_card) = Some bare_listing
   \<and> title bare_listing = ''Park place''
   \<and> url bare_listing = ''https://streeteasy.com/rental/x1''
   \<and> price bare_listing = NA \<and> bedrooms bare_listing = NA
   \<and> bathrooms bare_listing = NA \<and> sqft bare_listing = NA
   \<and> fst (get_page_with_retry always_bare (\<lambda>n. n) 3 new_session) =
       Inr \<lparr>status_code = 200, content = bare_page\<rparr>
   \<and> bare_listing \<in> set (fst (scrape_listings always_bare (\<lambda>n. n) new_session))"
proof -
  have t: "extract_title ([bare_page], bare_card) \<noteq> NA" by (simp add: bare_title NA_def)
  have c: "([bare_page], bare_card) \<in>
      set (select ([], content \<lparr>status_code = 200, content = bare_page\<rparr>) listing_card_sel)"
    unfolding bare_cards by simp
  from card_with_title_and_url_only [OF bare_link t bare_no_price disjI1 [OF bare_no_beds]]
  obtain l where l: "scrape_card ([bare_page], bare_card) = Some l"
    and f: "price l = NA \<and> bedrooms l = NA \<and> bathrooms l = NA \<and> sqft l = NA"
    and p: "\<forall>net rnd sess resp.
          fst (get_page_with_retry net rnd 3 sess) = Inr resp
          \<and> ([bare_page], bare_card) \<in> set (select ([], content resp) listing_card_sel) \<longrightarrow>
          l \<in> set (fst (scrape_listings net rnd sess))"
    by blast
  from l have e: "l = bare_listing" by (simp add: bare_scrape_card)
  from p bare_fetch c
  have m: "bare_listing \<in> set (fst (scrape_listings always_bare (\<lambda>n. n) new_session))"
    unfolding e by blast
  have "title bare_listing = ''Park place''"
    "url bare_listing = ''https://streeteasy.com/rental/x1''"
    by (simp_all add: bare_listing_def)
  then show ?thesis
    using bare_link t bare_no_price bare_no_beds bare_scrape_card f m bare_fetch
    unfolding e by simp
qed

text \<open>
  C7. A call of \<^verbatim>\<open>get_page_with_retry\<close> sends at most \<^verbatim>\<open>max_retries\<close> requests (none when
  \<^verbatim>\<open>max_retries\<close> is not positive), the first with the identity the session has. Every
  request but the last fails; after a failed request with status 403 the next request
  goes out with an identity drawn from the pool \<^verbatim>\<open>user_agents\<close>, after any other failure
  (another status, a request that raised) with the same identity; a failed request with
  passes left is followed by another request. A returned response has status 200 and
  answers the last request sent, so the loop stops at the first success. When the call
  raises, the error carries \<^verbatim>\<open>max_retries\<close>, exactly \<^verbatim>\<open>max_retries\<close> requests were sent
  and all of them failed. \<^verbatim>\<open>scrape_listings\<close> calls it with the default, 3, and so sends
  at most three requests.
\<close>

theorem get_page_with_retry_attempts:
  assumes "get_page_with_retry net rnd max_retries sess = (res, sess')"
  shows "(let k = length (requests_sent sess); tr = attempts sess sess' in
            requests_sent sess' = requests_sent sess @ tr
          \<and> int (length tr) \<le> max 0 max_retries
          \<and> (tr \<noteq> [] \<longrightarrow> tr ! 0 = user_agent sess)
          \<and> (\<forall>i. Suc i < length tr \<longrightarrow>
                failed (net (k + i) (tr ! i))
              \<and> (forbidden (net (k + i) (tr ! i)) \<longrightarrow>
                   tr ! Suc i = random_choice (rnd (k + i)) user_agents
                 \<and> tr ! Suc i \<in> set user_agents)
              \<and> (\<not> forbidden (net (k + i) (tr ! i)) \<longrightarrow> tr ! Suc i = tr ! i))
          \<and> (\<forall>i < length tr. failed (net (k + i) (tr ! i)) \<longrightarrow> int (Suc i) < max_retries \<longrightarrow>
                Suc i < length tr)
          \<and> (\<forall>resp. res = Inr resp \<longrightarrow>
                status_code resp = 200 \<and> tr \<noteq> []
              \<and> net (k + (length tr - 1)) (tr ! (length tr - 1)) = Responded resp)
          \<and> (\<forall>e. res = Inl e \<longrightarrow>
                e = RequestException max_retries \<and> int (length tr) = max 0 max_retries
              \<and> (0 \<le> max_retries \<longrightarrow> e = RequestException (int (length tr)))
              \<and> (\<forall>i < length tr. failed (net (k + i) (tr ! i)))))
     \<and> int (length (attempts sess (snd (scrape_listings net rnd sess)))) \<le> 3"
proof -
  let ?k = "length (requests_sent sess)"
  from assms have run: "get_page_with_retry_from net rnd max_retries 0 sess = (res, sess')"
    by (simp add: get_page_with_retry_def)
  from retry_from_post [OF run] obtain tr where
    e: "case res of Inl e \<Rightarrow> e = RequestException max_retries | Inr resp \<Rightarrow> True" and
    t: "requests_sent sess' = requests_sent sess @ tr" and
    p: "fetch_post net rnd (max_retries - int 0) sess res tr"
    by blast
  have tr: "attempts sess sess' = tr" using t by (simp add: attempts_def)
  have p1: "int (length tr) \<le> max 0 max_retries"
    and p2: "tr \<noteq> [] \<longrightarrow> hd tr = user_agent sess"
    and p3: "retry_chain net rnd ?k tr"
    and p4: "case res of
            Inr resp \<Rightarrow> tr \<noteq> [] \<and> status_code resp = 200
              \<and> net (?k + length tr - 1) (last tr) = Responded resp
          | Inl e \<Rightarrow> int (length tr) = max 0 max_retries \<and> all_failed net ?k tr"
    using p by (simp_all add: fetch_post_def split: sum.splits)
  have c3: "tr \<noteq> [] \<longrightarrow> tr ! 0 = user_agent sess"
    using p2 by (simp add: hd_conv_nth)
  have c4: "\<forall>i. Suc i < length tr \<longrightarrow>
                failed (net (?k + i) (tr ! i))
              \<and> (forbidden (net (?k + i) (tr ! i)) \<longrightarrow>
                   tr ! Suc i = random_choice (rnd (?k + i)) user_agents
                 \<and> tr ! Suc i \<in> set user_agents)
              \<and> (\<not> forbidden (net (?k + i) (tr ! i)) \<longrightarrow> tr ! Suc i = tr ! i)"
    using retry_chain_nth [OF p3] random_choice_user_agents by simp
  have c6: "\<forall>resp. res = Inr resp \<longrightarrow>
                status_code resp = 200 \<and> tr \<noteq> []
              \<and> net (?k + (length tr - 1)) (tr ! (length tr - 1)) = Responded resp"
  proof (intro allI impI)
    fix resp assume "res = Inr resp"
    with p4 have "tr \<noteq> []" "status_code resp = 200"
      "net (?k + length tr - 1) (last tr) = Responded resp" by simp_all
    moreover from \<open>tr \<noteq> []\<close> have "?k + length tr - 1 = ?k + (length tr - 1)"
      by (cases tr) simp_all
    ultimately show "status_code resp = 200 \<and> tr \<noteq> []
              \<and> net (?k + (length tr - 1)) (tr ! (length tr - 1)) = Responded resp"
      by (simp add: last_conv_nth)
  qed
  have c7: "\<forall>e. res = Inl e \<longrightarrow>
                e = RequestException max_retries \<and> int (length tr) = max 0 max_retries
              \<and> (0 \<le> max_retries \<longrightarrow> e = RequestException (int (length tr)))
              \<and> (\<forall>i < length tr. failed (net (?k + i) (tr ! i)))"
  proof (intro allI impI)
    fix e assume "res = Inl e"
    with p4 e have "e = RequestException max_retries" "int (length tr) = max 0 max_retries"
      "all_failed net ?k tr" by simp_all
    moreover from this have "0 \<le> max_retries \<longrightarrow> e = RequestException (int (length tr))"
      by simp
    ultimately show "e = RequestException max_retries \<and> int (length tr) = max 0 max_retries
              \<and> (0 \<le> max_retries \<longrightarrow> e = RequestException (int (length tr)))
              \<and> (\<forall>i < length tr. failed (net (?k + i) (tr ! i)))"
      using all_failed_nth by blast
  qed
  have c5: "\<forall>i < length tr. failed (net (?k + i) (tr ! i)) \<longrightarrow> int (Suc i) < max_retries \<longrightarrow>
                Suc i < length tr"
  proof (intro allI impI)
    fix i assume i: "i < length tr" and f: "failed (net (?k + i) (tr ! i))"
      and m: "int (Suc i) < max_retries"
    show "Suc i < length tr"
    proof (cases res)
      case (Inl e)
      with c7 have "int (length tr) = max 0 max_retries" by simp
      with m show ?thesis by simp
    next
      case (Inr resp)
      with c6 have "net (?k + (length tr - 1)) (tr ! (length tr - 1)) = Responded resp"
        "status_code resp = 200" by simp_all
      then have "\<not> failed (net (?k + (length tr - 1)) (tr ! (length tr - 1)))"
        by (simp add: failed_def)
      with f have "i \<noteq> length tr - 1" by auto
      with i show ?thesis by simp
    qed
  qed
  have c8: "int (length (attempts sess (snd (scrape_listings net rnd sess)))) \<le> 3"
    using get_page_with_retry_bound [of sess net rnd 3] by (simp add: scrape_listings_session)
  have "requests_sent sess' = requests_sent sess @ tr
          \<and> int (length tr) \<le> max 0 max_retries
          \<and> (tr \<noteq> [] \<longrightarrow> tr ! 0 = user_agent sess)"
    using t p1 c3 by blast
  with c4 c5 c6 c7 c8 show ?thesis
    unfolding Let_def tr by blast
qed

theorem get_page_with_retry_attempts_witness:
  "get_page_with_retry forbidden_twice (\<lambda>n. n) 3 new_session = (Inr ok_response, rotated_session)
   \<and> attempts new_session rotated_session = [initial_user_agent, user_agents ! 0, user_agents ! 1]
   \<and> int (length (attempts new_session rotated_session)) \<le> max 0 3
   \<and> forbidden (forbidden_twice 0 initial_user_agent)
   \<and> attempts new_session rotated_session ! Suc 0 \<in> set user_agents
   \<and> status_code ok_response = 200
   \<and> get_page_with_retry always_forbidden (\<lambda>n. n) 3 new_session =
       (Inl (RequestException 3), rotated_session)
   \<and> RequestException 3 = RequestException (int (length (attempts new_session rotated_session)))"
proof -
  have a: "attempts new_session rotated_session =
      [initial_user_agent, user_agents ! 0, user_agents ! 1]"
    by (simp add: attempts_def new_session_def rotated_session_def)
  have f: "forbidden (forbidden_twice 0 initial_user_agent)"
    by (simp add: forbidden_def forbidden_twice_def forbidden_response_def)
  from get_page_with_retry_attempts [OF forbidden_twice_fetch]
  have "int (length (attempts new_session rotated_session)) \<le> max 0 3"
    and "\<forall>i. Suc i < length (attempts new_session rotated_session) \<longrightarrow>
      (forbidden (forbidden_twice (length (requests_sent new_session) + i)
          (attempts new_session rotated_session ! i)) \<longrightarrow>
        attempts new_session rotated_session ! Suc i \<in> set user_agents)"
    and "status_code ok_response = 200"
    unfolding Let_def by blast+
  moreover have "Suc 0 < length (attempts new_session rotated_session)"
    and "attempts new_session rotated_session ! 0 = initial_user_agent"
    by (simp_all add: a)
  moreover have "length (requests_sent new_session) + 0 = 0"
    by (simp add: new_session_def)
  moreover from get_page_with_retry_attempts [OF forbidden_fetch]
  have "(0::int) \<le> 3 \<longrightarrow>
      RequestException 3 = RequestException (int (length (attempts new_session rotated_session)))"
    unfolding Let_def by blast
  then have "RequestException 3 =
      RequestException (int (length (attempts new_session rotated_session)))"
    by simp
  ultimately show ?thesis using forbidden_twice_fetch forbidden_fetch a f by metis
qed

text \<open>
  C8. When the fetcher raises after its last attempt, \<^verbatim>\<open>scrape_listings\<close> catches the
  error and returns no listing, and the cycle returns at once: nothing is handed to the
  notifier and the table is unchanged. The cycle itself returns a result (it has no
  error branch).
\<close>

theorem fetch_failure_changes_nothing:
  assumes "fst (get_page_with_retry net rnd 3 (session tr)) = Inl e"
  shows "fst (check_for_new_listings net rnd clock tr) = []
     \<and> apartments (snd (check_for_new_listings net rnd clock tr)) = apartments tr"
  using check_for_new_listings_result [of net rnd clock tr] scrape_listings_failed [OF assms]
  by simp

theorem fetch_failure_changes_nothing_witness:
  "fst (get_page_with_retry always_forbidden (\<lambda>n. n) 3 (session new_tracker)) =
     Inl (RequestException 3)
   \<and> fst (check_for_new_listings always_forbidden (\<lambda>n. n) (\<lambda>i. 10 + i) new_tracker) = []
   \<and> apartments (snd (check_for_new_listings always_forbidden (\<lambda>n. n) (\<lambda>i. 10 + i) new_tracker))
       = apartments new_tracker"
proof -
  have f: "fst (get_page_with_retry always_forbidden (\<lambda>n. n) 3 (session new_tracker)) =
     Inl (RequestException 3)"
    by (simp add: new_tracker_def forbidden_fetch)
  from fetch_failure_changes_nothing [OF f, of "\<lambda>i. 10 + i"] f show ?thesis by simp
qed

text \<open>
  C9. Saving a listing a second time under an id that is already stored changes nothing:
  the store after \<^verbatim>\<open>save_listing(r1); save_listing(r2)\<close> with the same id is the store after
  \<^verbatim>\<open>save_listing(r1)\<close> alone, whatever the other fields of \<open>r2\<close> and whatever the time of
  the second call; in particular the row stored under that id is the one it was. In
  general \<^verbatim>\<open>save_listing\<close> of an id that \<^verbatim>\<open>is_new_listing\<close> reports as known returns the
  store as it was (a store, not an error).
\<close>

theorem save_listing_idempotent:
  "(listing_id r2 = listing_id r1 \<longrightarrow>
      save_listing t2 r2 (save_listing t1 r1 db) = save_listing t1 r1 db
    \<and> save_listing t2 r2 (save_listing t1 r1 db) (listing_id r1)
        = save_listing t1 r1 db (listing_id r1))
   \<and> (\<not> is_new_listing db' (listing_id r) \<longrightarrow> save_listing t r db' = db')"
  by (auto simp: save_listing_def is_new_listing_def split: option.splits)

theorem save_listing_idempotent_witness:
  "listing_id (sample_listing\<lparr>price := ''$2,600'', bedrooms := ''1 bed''\<rparr>)
      = listing_id sample_listing
   \<and> save_listing 9 (sample_listing\<lparr>price := ''$2,600'', bedrooms := ''1 bed''\<rparr>)
        (save_listing 4 sample_listing Map.empty)
       = save_listing 4 sample_listing Map.empty
   \<and> save_listing 9 (sample_listing\<lparr>price := ''$2,600'', bedrooms := ''1 bed''\<rparr>)
        (save_listing 4 sample_listing Map.empty) (listing_id sample_listing)
       = Some (sample_listing, 4)
   \<and> \<not> is_new_listing (save_listing 4 sample_listing Map.empty) (listing_id sample_listing)
   \<and> save_listing 9 sample_listing (save_listing 4 sample_listing Map.empty)
       = save_listing 4 sample_listing Map.empty"
  using save_listing_idempotent
    [of "sample_listing\<lparr>price := ''$2,600'', bedrooms := ''1 bed''\<rparr>" sample_listing 9 4
        Map.empty "save_listing 4 sample_listing Map.empty" sample_listing 9]
  by (simp add: save_listing_def is_new_listing_def)

text \<open>
  C10. The list \<^verbatim>\<open>new_listings\<close> that a cycle hands to the notifier has pairwise
  distinct ids: a listing is saved before the next one is checked, so a second candidate
  with the same id is no longer new. Since the id of a scraped listing is the hash of its
  title, address and price, at most one listing of \<^verbatim>\<open>new_listings\<close> has a given triple.
\<close>

theorem new_listings_distinct_ids:
  "check_for_new_listings net rnd clock tr = (new_listings, tr') \<Longrightarrow>
     distinct (map listing_id new_listings)
     \<and> length (filter (\<lambda>l. title l = t \<and> address l = a \<and> price l = p) new_listings) \<le> 1"
proof -
  assume run: "check_for_new_listings net rnd clock tr = (new_listings, tr')"
  let ?ls = "fst (scrape_listings net rnd (session tr))"
  from check_new_cases [OF run]
  have d: "distinct (map listing_id new_listings) \<and> set new_listings \<subseteq> set ?ls"
  proof
    assume "new_listings = [] \<and> apartments tr' = apartments tr"
    then show ?thesis by simp
  next
    assume "new_listings_loop clock 0 ?ls [] (apartments tr) = (new_listings, apartments tr')"
    then have "new_listings = fst (new_listings_loop clock 0 ?ls [] (apartments tr))"
      by simp
    then show ?thesis using loop_distinct loop_subset by simp
  qed
  have "length (filter (\<lambda>l. title l = t \<and> address l = a \<and> price l = p) new_listings) \<le> 1"
  proof (rule distinct_same_key [where f = listing_id and k = "generate_listing_id t a p"])
    show "distinct (map listing_id new_listings)" using d by simp
  next
    fix x assume "x \<in> set new_listings" "title x = t \<and> address x = a \<and> price x = p"
    with d scrape_listings_id [of x net rnd "session tr"]
    show "listing_id x = generate_listing_id t a p" by auto
  qed
  with d show ?thesis by simp
qed

theorem new_listings_distinct_ids_witness:
  "check_for_new_listings always_ok (\<lambda>n. n) (\<lambda>i. 10 + i) new_tracker =
     ([sample_listing], tracker_after_one)
   \<and> fst (scrape_listings always_ok (\<lambda>n. n) (session new_tracker)) =
       [sample_listing, sample_listing]
   \<and> distinct (map listing_id [sample_listing])
   \<and> length (filter (\<lambda>l. title l = ''120 East 5th Street 3A''
        \<and> address l = ''120 East 5th Street'' \<and> price l = ''$2,500'') [sample_listing]) \<le> 1"
  using sample_cycle
    new_listings_distinct_ids [OF sample_cycle, of "''120 East 5th Street 3A''"
      "''120 East 5th Street''" "''$2,500''"]
  by (simp add: new_tracker_def sample_scrape)

end
